theory Spec2Isabelle
  imports Main "HOL-Library.AList"
begin

section \<open>The SPA router of file-explore (src/js/router.js)\<close>

text \<open>
  The router maps browser paths to manifest entries, switches the page layout, loads
  content fragments and keeps breadcrumb and sidebar in step with the URL. The model
  below follows \<^verbatim>\<open>class Router\<close> method by method. JavaScript strings are character
  lists; the fields of the router object and the parts of the browser it reads and
  writes (location, history, DOM) are fields of one explicit state record that every
  method takes and returns.
\<close>

subsection \<open>JavaScript values read from the manifest\<close>

text \<open>
  A manifest member that should hold a string may be missing (\<^verbatim>\<open>undefined\<close>), \<^verbatim>\<open>null\<close>
  or a string. The code tests such a value for truthiness (\<^verbatim>\<open>!contentPath\<close>) and
  interpolates it into template strings.
\<close>

datatype js_string = JUndefined | JNull | JString string

definition falsy :: "js_string \<Rightarrow> bool" where
  "falsy v = (case v of JUndefined \<Rightarrow> True | JNull \<Rightarrow> True | JString s \<Rightarrow> s = [])"

definition template :: "js_string \<Rightarrow> string" where
  "template v = (case v of JUndefined \<Rightarrow> ''undefined'' | JNull \<Rightarrow> ''null'' | JString s \<Rightarrow> s)"

subsection \<open>String helpers: \<^verbatim>\<open>startsWith\<close>, anchored regular expressions, \<^verbatim>\<open>split\<close>\<close>

definition startsWith :: "string \<Rightarrow> string \<Rightarrow> bool" where
  "startsWith s pre = (take (length pre) s = pre)"

definition endsWith :: "string \<Rightarrow> string \<Rightarrow> bool" where
  "endsWith s suf = (length suf \<le> length s \<and> drop (length s - length suf) s = suf)"

text \<open>
  The \<^verbatim>\<open>i\<close> flag of a regular expression without the \<^verbatim>\<open>u\<close> flag compares characters
  after upper-casing; a character outside ASCII never matches an ASCII letter.
\<close>

definition ascii_upper :: "char \<Rightarrow> char" where
  "ascii_upper c =
     (case map_of (zip ''abcdefghijklmnopqrstuvwxyz'' ''ABCDEFGHIJKLMNOPQRSTUVWXYZ'') c of
        Some u \<Rightarrow> u | None \<Rightarrow> c)"

definition endsWith_ci :: "string \<Rightarrow> string \<Rightarrow> bool" where
  "endsWith_ci s suf = (length suf \<le> length s \<and>
     map ascii_upper (drop (length s - length suf) s) = map ascii_upper suf)"

text \<open>\<^verbatim>\<open>s.replace(/\.html$/, '')\<close>: the pattern is anchored at the end of the input.\<close>

definition strip_html :: "string \<Rightarrow> string" where
  "strip_html s = (if endsWith s ''.html'' then take (length s - 5) s else s)"

text \<open>
  \<^verbatim>\<open>s.replace(/\/README$/i, '')\<close> and \<^verbatim>\<open>s.replace(/\/readme$/i, '')\<close>: both patterns
  ignore case, so they denote the same replacement.
\<close>

definition strip_readme :: "string \<Rightarrow> string" where
  "strip_readme s = (if endsWith_ci s ''/README'' then take (length s - 7) s else s)"

text \<open>\<^verbatim>\<open>s.split(c)\<close> for a one-character separator: the empty string gives one empty part.\<close>

fun splitOn :: "char \<Rightarrow> string \<Rightarrow> string list" where
  "splitOn c [] = [[]]"
| "splitOn c (x # xs) =
     (if x = c then [] # splitOn c xs
      else (case splitOn c xs of [] \<Rightarrow> [[x]] | p # ps \<Rightarrow> (x # p) # ps))"

subsection \<open>Path Normalizer: \<^verbatim>\<open>pathToSubRoute\<close> and \<^verbatim>\<open>pathToRoute\<close>\<close>

text \<open>
  \<^verbatim>\<open>if (!contentPath) return ''\<close>, then the three replacements in order; the final
  \<^verbatim>\<open>|| ''\<close> maps the empty string to itself.
\<close>

definition pathToSubRoute :: "js_string \<Rightarrow> string" where
  "pathToSubRoute contentPath =
     (if falsy contentPath then []
      else strip_readme (strip_readme (strip_html (template contentPath))))"

definition pathToRoute :: "js_string \<Rightarrow> string" where
  "pathToRoute contentPath = ''/notes'' @ pathToSubRoute contentPath"

subsection \<open>Manifest, Route Table and FlatRouteList\<close>

datatype manifest_node =
  ManifestNode (item_title: string) (item_type: string) (content_path: js_string)
    (children: "manifest_node list")

record route_data =
  title :: string
  rtype :: string
  contentPath :: js_string
  parentPath :: string
  namedRoute :: string

record flat_route =
  route :: string
  flat_title :: string
  flat_type :: string
  flat_contentPath :: js_string

text \<open>
  \<^verbatim>\<open>this.routes\<close> is a JavaScript \<^verbatim>\<open>Map\<close>: it iterates in the order in which keys were
  first inserted, and \<^verbatim>\<open>set\<close> on a present key replaces the value where it stands.
  That is an association list under \<^const>\<open>AList.update\<close>; \<^verbatim>\<open>get\<close> is \<^const>\<open>map_of\<close>.
  \<^verbatim>\<open>this.flatRoutes\<close> is an array, \<^verbatim>\<open>push\<close> appends.
\<close>

record tables =
  routes :: "(string \<times> route_data) list"
  flatRoutes :: "flat_route list"

definition route_entry :: "manifest_node \<Rightarrow> string \<Rightarrow> route_data" where
  "route_entry item parent =
     \<lparr>title = item_title item, rtype = item_type item, contentPath = content_path item,
      parentPath = parent, namedRoute = ''notes''\<rparr>"

definition flat_entry :: "manifest_node \<Rightarrow> flat_route" where
  "flat_entry item =
     \<lparr>route = ''/notes'' @ pathToSubRoute (content_path item), flat_title = item_title item,
      flat_type = item_type item, flat_contentPath = content_path item\<rparr>"

text \<open>
  \<^verbatim>\<open>buildRoutes(items, parentPath)\<close>: \<^verbatim>\<open>forEach\<close> over the items; each item is entered in
  the table and pushed on the flat list, then its children are built with the item's
  route as their parent path. \<open>buildItem\<close> is the body of the \<^verbatim>\<open>forEach\<close> callback.
\<close>

fun buildRoutes :: "manifest_node list \<Rightarrow> string \<Rightarrow> ('a tables_scheme) \<Rightarrow> ('a tables_scheme)"
  and buildItem :: "manifest_node \<Rightarrow> string \<Rightarrow> ('a tables_scheme) \<Rightarrow> ('a tables_scheme)" where
  "buildRoutes [] parent st = st"
| "buildRoutes (item # items) parent st = buildRoutes items parent (buildItem item parent st)"
| "buildItem (ManifestNode t ty cp ch) parent st =
     (let subroute = pathToSubRoute cp;
          r = ''/notes'' @ subroute;
          st1 = st\<lparr>routes := AList.update r
                   \<lparr>title = t, rtype = ty, contentPath = cp, parentPath = parent,
                    namedRoute = ''notes''\<rparr> (routes st)\<rparr>;
          st2 = st1\<lparr>flatRoutes := flatRoutes st1 @
                   [\<lparr>route = r, flat_title = t, flat_type = ty, flat_contentPath = cp\<rparr>]\<rparr>
      in if ch \<noteq> [] then buildRoutes ch r st2 else st2)"

text \<open>
  Reference traversal, used to state what \<^const>\<open>buildRoutes\<close> leaves behind: the nodes of
  a forest in depth-first pre-order, and the (key, Route) pairs in the order in which
  the builder writes them, each child carrying its parent's key as parent path.
\<close>

fun nodes :: "manifest_node list \<Rightarrow> manifest_node list"
  and nodes_item :: "manifest_node \<Rightarrow> manifest_node list" where
  "nodes [] = []"
| "nodes (item # items) = nodes_item item @ nodes items"
| "nodes_item (ManifestNode t ty cp ch) = ManifestNode t ty cp ch # nodes ch"

fun entries :: "manifest_node list \<Rightarrow> string \<Rightarrow> (string \<times> route_data) list"
  and entries_item :: "manifest_node \<Rightarrow> string \<Rightarrow> (string \<times> route_data) list" where
  "entries [] parent = []"
| "entries (item # items) parent = entries_item item parent @ entries items parent"
| "entries_item (ManifestNode t ty cp ch) parent =
     (pathToRoute cp, route_entry (ManifestNode t ty cp ch) parent) # entries ch (pathToRoute cp)"

text \<open>A sequence of \<^verbatim>\<open>Map.set\<close> calls, oldest first.\<close>

definition set_all ::
  "(string \<times> route_data) list \<Rightarrow> (string \<times> route_data) list \<Rightarrow> (string \<times> route_data) list" where
  "set_all es al = fold (\<lambda>e. AList.update (fst e) (snd e)) es al"

subsection \<open>Named routes\<close>

text \<open>
  The registry \<^verbatim>\<open>this.namedRoutes\<close> of the constructor: three fixed entries, each with
  its key, path, title and sidebar flag. A named-route name in the code is one of the
  three keys or \<^verbatim>\<open>null\<close>, here \<open>named_route option\<close>.
\<close>

datatype named_route = Home | About | Notes

fun route_key :: "named_route \<Rightarrow> string" where
  "route_key Home = ''home''"
| "route_key About = ''about''"
| "route_key Notes = ''notes''"

fun named_path :: "named_route \<Rightarrow> string" where
  "named_path Home = ''/''"
| "named_path About = ''/about''"
| "named_path Notes = ''/notes''"

fun named_title :: "named_route \<Rightarrow> string" where
  "named_title Home = ''Home''"
| "named_title About = ''About''"
| "named_title Notes = ''Notes''"

fun sidebar :: "named_route \<Rightarrow> bool" where
  "sidebar Home = False"
| "sidebar About = False"
| "sidebar Notes = True"

definition resolveNamedRoute :: "string \<Rightarrow> named_route option" where
  "resolveNamedRoute path =
     (if path = ''/'' then Some Home
      else if path = ''/about'' then Some About
      else if path = ''/notes'' \<or> startsWith path ''/notes/'' \<or> startsWith path ''/notes?''
        then Some Notes
      else None)"

subsection \<open>Browser and DOM state\<close>

text \<open>
  What the router reads and writes outside its own fields: the path of the current
  location, the calls made to the History API (oldest first), the URLs fetched (oldest
  first), the class list of the app root, the inline \<^verbatim>\<open>display\<close> style of the four
  chrome elements, the top navigation links, the sidebar tree, the markup of the content
  region and of the breadcrumb, and the document title.
\<close>

datatype history_op = PushState string | ReplaceState string

record nav_link =
  data_nav :: "string option"
  nav_active :: bool

text \<open>
  One \<^verbatim>\<open>.tree-item\<close> of the sidebar as \<^verbatim>\<open>buildFileTree\<close> lays it out: the link with its
  \<^verbatim>\<open>href\<close> and \<^verbatim>\<open>active\<close> class, the \<^verbatim>\<open>expanded\<close> class of the link's arrow, the
  \<^verbatim>\<open>open\<close> class of the \<^verbatim>\<open>.children\<close> container, and the items inside that container.
\<close>

datatype tree_item =
  TreeItem (href: string) (link_active: bool) (arrow_expanded: bool) (children_open: bool)
    (kids: "tree_item list")

record router_state = tables +
  currentNamedRoute :: "named_route option"
  pathname :: string
  history :: "history_op list"
  fetched :: "string list"
  app_classes :: "string list"
  sidebar_display :: string
  menu_toggle_display :: string
  overlay_display :: string
  breadcrumb_display :: string
  nav_links :: "nav_link list"
  tree_links :: "tree_item list"
  content_body :: string
  breadcrumb_html :: string
  document_title :: string

text \<open>
  The environment of a navigation: what a \<^verbatim>\<open>fetch\<close> of a URL yields, and the path the
  browser reports in \<^verbatim>\<open>location.pathname\<close> after a History API call with a given URL
  (URL parsing, percent-encoding and the cut at a query or fragment belong to the
  browser, not to the router).
\<close>

datatype fetch_outcome = FetchRejected | FetchResponse (ok: bool) (body: string)

datatype js_error = TypeError | Error string

record env =
  fetch :: "string \<Rightarrow> fetch_outcome"
  url_pathname :: "string \<Rightarrow> string"

definition class_add :: "string \<Rightarrow> string list \<Rightarrow> string list" where
  "class_add c cs = (if c \<in> set cs then cs else cs @ [c])"

definition class_remove :: "string \<Rightarrow> string list \<Rightarrow> string list" where
  "class_remove c cs = removeAll c cs"

subsection \<open>Layout and top navigation\<close>

text \<open>
  \<^verbatim>\<open>const showSidebar = namedRoute?.sidebar ?? false\<close>: the flag of the named route,
  \<^verbatim>\<open>false\<close> for \<^verbatim>\<open>null\<close>.
\<close>

definition showSidebar :: "named_route option \<Rightarrow> bool" where
  "showSidebar namedRouteName = (case namedRouteName of None \<Rightarrow> False | Some n \<Rightarrow> sidebar n)"

definition applyLayout :: "named_route option \<Rightarrow> router_state \<Rightarrow> router_state" where
  "applyLayout namedRouteName st =
     (if showSidebar namedRouteName then
        st\<lparr>app_classes := class_remove ''home-page'' (app_classes st),
           sidebar_display := [],
           menu_toggle_display := [],
           overlay_display := [],
           breadcrumb_display := [],
           currentNamedRoute := namedRouteName\<rparr>
      else
        st\<lparr>app_classes := class_add ''home-page'' (app_classes st),
           sidebar_display := ''none'',
           menu_toggle_display := ''none'',
           overlay_display := ''none'',
           breadcrumb_display := ''none'',
           currentNamedRoute := namedRouteName\<rparr>)"

text \<open>\<^verbatim>\<open>link.classList.toggle('active', nav === namedRouteName)\<close> on every \<^verbatim>\<open>.nav-link\<close>.\<close>

definition updateTopNav :: "named_route option \<Rightarrow> router_state \<Rightarrow> router_state" where
  "updateTopNav namedRouteName st =
     st\<lparr>nav_links :=
          map (\<lambda>link. link\<lparr>nav_active :=
                 (case (data_nav link, namedRouteName) of
                    (Some nav, Some n) \<Rightarrow> nav = route_key n
                  | _ \<Rightarrow> False)\<rparr>)
              (nav_links st)\<rparr>"

subsection \<open>Static pages\<close>

text \<open>
  The markup of the home and about pages is fixed text; it is kept here with the
  template's indentation and line breaks left out and its dashes written as two hyphens.
\<close>

definition home_markup :: string where
  \<open>home_markup =
     ''<div class="home-hero"><h1>Welcome Home</h1><p>This is the home page of Doc.</p></div>''\<close>

definition about_markup :: string where
  \<open>about_markup =
     ''<div class="home-hero"><h1>About</h1>'' @
     ''<p>Doc. is a lightweight, file-explorer-style documentation viewer built with '' @
     ''vanilla HTML, CSS, and JavaScript -- no frameworks, no build tools.</p>'' @
     ''<h2>Features</h2><ul>'' @
     ''<li><strong>SPA Routing</strong> -- History API-based navigation with clean URLs</li>'' @
     ''<li><strong>File Tree Sidebar</strong> -- Expandable folder/file explorer for browsing notes</li>'' @
     ''<li><strong>Mobile Friendly</strong> -- Responsive layout with slide-out menu</li>'' @
     ''<li><strong>Manifest Driven</strong> -- Content structure defined in a single JSON file</li>'' @
     ''<li><strong>Static Hosting</strong> -- Deploys to Cloudflare Pages with zero config</li>'' @
     ''</ul><h2>Tech Stack</h2><ul><li>HTML5 &amp; CSS3</li>'' @
     ''<li>Vanilla JavaScript (ES Modules)</li><li>Cloudflare Pages</li></ul>'' @
     ''<h2>How It Works</h2>'' @
     ''<p>Content is stored as plain HTML files in the <code>content-store/</code> directory. '' @
     ''A <code>manifest.json</code> file describes the folder structure, which the app reads '' @
     ''at startup to build the sidebar tree and register routes.</p>'' @
     ''<p>When you click a link, the SPA router intercepts it, updates the URL via the '' @
     ''History API, and fetches the corresponding HTML fragment -- no full page reloads.</p>'' @
     ''</div>''\<close>

definition renderHome :: "router_state \<Rightarrow> router_state" where
  "renderHome st = st\<lparr>content_body := home_markup\<rparr>"

definition renderAbout :: "router_state \<Rightarrow> router_state" where
  "renderAbout st = st\<lparr>content_body := about_markup\<rparr>"

subsection \<open>Content Loader: \<^verbatim>\<open>renderNotes\<close>\<close>

text \<open>
  The body of the \<^verbatim>\<open>try\<close> block: the fetch may reject, the response may be not ok (the
  code then throws \<^verbatim>\<open>new Error('Not found')\<close>), otherwise the text of the response is
  the value. A thrown error is the left summand.
\<close>

definition content_url :: "route_data \<Rightarrow> string" where
  "content_url routeData = ''/content-store'' @ template (contentPath routeData)"

definition try_fetch :: "env \<Rightarrow> route_data \<Rightarrow> js_error + string" where
  "try_fetch e routeData =
     (case fetch e (content_url routeData) of
        FetchRejected \<Rightarrow> Inl TypeError
      | FetchResponse is_ok text \<Rightarrow> if \<not> is_ok then Inl (Error ''Not found'') else Inr text)"

definition load_error_markup :: "route_data \<Rightarrow> string" where
  "load_error_markup routeData = ''<p>Error loading: '' @ template (contentPath routeData) @ ''</p>''"

text \<open>The \<^verbatim>\<open>catch\<close> clause takes every error of the block and writes the inline message.\<close>

definition renderNotes :: "env \<Rightarrow> route_data \<Rightarrow> router_state \<Rightarrow> router_state" where
  "renderNotes e routeData st =
     (let st1 = st\<lparr>fetched := fetched st @ [content_url routeData]\<rparr>
      in case try_fetch e routeData of
           Inr text \<Rightarrow> st1\<lparr>content_body := text\<rparr>
         | Inl error \<Rightarrow> st1\<lparr>content_body := load_error_markup routeData\<rparr>)"

subsection \<open>Fallback Matcher: \<^verbatim>\<open>findMatchingRoute\<close>\<close>

fun findMatchingRoute :: "string \<Rightarrow> (string \<times> route_data) list \<Rightarrow> string option" where
  "findMatchingRoute current [] = None"
| "findMatchingRoute current ((r, v) # rest) =
     (if startsWith r current \<or> startsWith current r then Some r
      else findMatchingRoute current rest)"

subsection \<open>UI sync: active link, breadcrumb, NotFound page\<close>

text \<open>
  \<^verbatim>\<open>updateActiveNav\<close>, first half: every tree link is active exactly when its \<^verbatim>\<open>href\<close> is
  the current path.
\<close>

fun mark_active :: "string \<Rightarrow> tree_item \<Rightarrow> tree_item" where
  "mark_active current (TreeItem h a x opn ks) =
     TreeItem h (h = current) x opn (map (mark_active current) ks)"

text \<open>
  Second half: \<^verbatim>\<open>querySelector\<close> takes the first link in document order whose \<^verbatim>\<open>href\<close>
  is the current path; the walk over \<^verbatim>\<open>closest('.children')\<close> then opens every
  container around that link and expands the arrow of the link before each container.
  \<open>expand_to\<close> returns the forest with the items around the first match opened, or
  \<open>None\<close> when no link matches.
\<close>

fun expand_to :: "string \<Rightarrow> tree_item list \<Rightarrow> tree_item list option"
  and expand_item :: "string \<Rightarrow> tree_item \<Rightarrow> tree_item option" where
  "expand_to current [] = None"
| "expand_to current (t # ts) =
     (case expand_item current t of
        Some t' \<Rightarrow> Some (t' # ts)
      | None \<Rightarrow> (case expand_to current ts of Some ts' \<Rightarrow> Some (t # ts') | None \<Rightarrow> None))"
| "expand_item current (TreeItem h a x opn ks) =
     (if h = current then Some (TreeItem h a x opn ks)
      else (case expand_to current ks of
              Some ks' \<Rightarrow> Some (TreeItem h a True True ks')
            | None \<Rightarrow> None))"

definition updateActiveNav :: "string \<Rightarrow> router_state \<Rightarrow> router_state" where
  "updateActiveNav current st =
     (let marked = map (mark_active current) (tree_links st)
      in st\<lparr>tree_links := (case expand_to current marked of Some t \<Rightarrow> t | None \<Rightarrow> marked)\<rparr>)"

text \<open>
  \<^verbatim>\<open>updateBreadcrumb\<close> appends pieces of markup to \<^verbatim>\<open>html\<close>: the Home link first, then
  for every part of the path a separator followed by the route's title (last part) or
  a link to the path accumulated so far. The pieces are kept as a list; the markup
  written to the breadcrumb is their concatenation.
\<close>

datatype crumb = Link string string | Separator | Plain string

fun crumb_html :: "crumb \<Rightarrow> string" where
  \<open>crumb_html (Link target label) = ''<a href="'' @ target @ ''" data-link>'' @ label @ ''</a>''\<close>
| \<open>crumb_html Separator = ''<span>/</span>''\<close>
| \<open>crumb_html (Plain text) = text\<close>

fun crumb_parts :: "string list \<Rightarrow> string \<Rightarrow> route_data \<Rightarrow> crumb list" where
  "crumb_parts [] currentPath routeData = []"
| "crumb_parts (part # rest) currentPath routeData =
     (let currentPath' = currentPath @ ''/'' @ part;
          isLast = (rest = [])
      in Separator #
         (if isLast then Plain (title routeData) else Link currentPath' part) #
         crumb_parts rest currentPath' routeData)"

definition path_parts :: "string \<Rightarrow> string list" where
  "path_parts current = filter (\<lambda>p. p \<noteq> []) (splitOn CHR ''/'' current)"

definition breadcrumb :: "string \<Rightarrow> route_data \<Rightarrow> crumb list" where
  "breadcrumb current routeData =
     Link ''/'' ''Home'' # crumb_parts (path_parts current) [] routeData"

definition updateBreadcrumb :: "string \<Rightarrow> route_data \<Rightarrow> router_state \<Rightarrow> router_state" where
  "updateBreadcrumb current routeData st =
     st\<lparr>breadcrumb_html := concat (map crumb_html (breadcrumb current routeData))\<rparr>"

definition not_found_markup :: string where
  \<open>not_found_markup = ''<h1>404</h1><p>Page not found. <a href="/" data-link>Go home</a></p>''\<close>

definition not_found_breadcrumb :: string where
  \<open>not_found_breadcrumb = ''<a href="/" data-link>Home</a> <span>/</span> 404''\<close>

definition show404 :: "router_state \<Rightarrow> router_state" where
  "show404 st = st\<lparr>content_body := not_found_markup, breadcrumb_html := not_found_breadcrumb\<rparr>"

subsection \<open>Navigation: \<^verbatim>\<open>navigate\<close>, \<^verbatim>\<open>getCurrentRoute\<close>, \<^verbatim>\<open>handleRoute\<close>\<close>

definition getCurrentRoute :: "router_state \<Rightarrow> string" where
  "getCurrentRoute st = (if pathname st = [] then ''/'' else pathname st)"

text \<open>
  \<^verbatim>\<open>history.replaceState({ route }, '', route)\<close> or \<^verbatim>\<open>history.pushState\<close>: the call is
  recorded, and the location's path becomes what the browser makes of the URL written.
\<close>

definition write_history :: "env \<Rightarrow> string \<Rightarrow> bool \<Rightarrow> router_state \<Rightarrow> router_state" where
  "write_history e target replace st =
     st\<lparr>pathname := url_pathname e target,
        history := history st @ [if replace then ReplaceState target else PushState target]\<rparr>"

text \<open>
  \<^verbatim>\<open>handleRoute\<close> and \<^verbatim>\<open>navigate\<close> call each other, and nothing in the code bounds the
  chain of redirects. The model counts the passes of \<^verbatim>\<open>handleRoute\<close> with fuel: \<open>None\<close>
  is a chain longer than the fuel given. A pass runs to its end before anything else
  happens (one navigation, no second event while a fetch is pending).
\<close>

fun handleRoute :: "nat \<Rightarrow> env \<Rightarrow> router_state \<Rightarrow> router_state option"
  and navigate :: "nat \<Rightarrow> env \<Rightarrow> string \<Rightarrow> bool \<Rightarrow> router_state \<Rightarrow> router_state option" where
  "navigate n e target replace st = handleRoute n e (write_history e target replace st)"
| "handleRoute 0 e st = None"
| "handleRoute (Suc n) e st =
     (let current = getCurrentRoute st;
          namedRouteName = resolveNamedRoute current;
          st1 = updateTopNav namedRouteName (applyLayout namedRouteName st)
      in case namedRouteName of
           Some Home \<Rightarrow> Some ((renderHome st1)\<lparr>document_title := ''Home - Doc.''\<rparr>)
         | Some About \<Rightarrow> Some ((renderAbout st1)\<lparr>document_title := ''About - Doc.''\<rparr>)
         | Some Notes \<Rightarrow>
             (case map_of (routes st1) current of
                Some routeData \<Rightarrow>
                  Some ((updateBreadcrumb current routeData
                          (updateActiveNav current (renderNotes e routeData st1)))
                        \<lparr>document_title := title routeData @ '' - Doc.''\<rparr>)
              | None \<Rightarrow>
                  (case (if current = ''/notes'' then flatRoutes st1 else []) of
                     firstRoute # others \<Rightarrow> navigate n e (route firstRoute) True st1
                   | [] \<Rightarrow>
                       (case findMatchingRoute current (routes st1) of
                          Some matchedRoute \<Rightarrow>
                            if matchedRoute \<noteq> [] then navigate n e matchedRoute True st1
                            else Some (show404 st1)
                        | None \<Rightarrow> Some (show404 st1))))
         | None \<Rightarrow> Some (show404 st1))"

subsection \<open>Start-up (src/app.js) and the sidebar tree\<close>

text \<open>
  \<^verbatim>\<open>buildFileTree\<close> lays out one tree item per manifest node, its link pointing to
  \<^verbatim>\<open>router.pathToRoute(item.content_path)\<close>, nothing active or open.
\<close>

fun buildFileTree :: "manifest_node list \<Rightarrow> tree_item list"
  and buildFileTree_item :: "manifest_node \<Rightarrow> tree_item" where
  "buildFileTree [] = []"
| "buildFileTree (item # items) = buildFileTree_item item # buildFileTree items"
| "buildFileTree_item (ManifestNode t ty cp ch) =
     TreeItem (pathToRoute cp) False False False (buildFileTree ch)"

text \<open>
  A freshly loaded page at a given path with a \<^verbatim>\<open>new Router()\<close>: empty table, empty flat
  list, nothing written yet, the three links of the top navigation.
\<close>

definition page :: "string \<Rightarrow> router_state" where
  "page p =
     \<lparr>routes = [], flatRoutes = [], currentNamedRoute = None, pathname = p, history = [],
      fetched = [], app_classes = [], sidebar_display = [], menu_toggle_display = [],
      overlay_display = [], breadcrumb_display = [],
      nav_links = [\<lparr>data_nav = Some ''home'', nav_active = False\<rparr>,
                   \<lparr>data_nav = Some ''about'', nav_active = False\<rparr>,
                   \<lparr>data_nav = Some ''notes'', nav_active = False\<rparr>],
      tree_links = [], content_body = [], breadcrumb_html = [], document_title = []\<rparr>"

text \<open>\<^verbatim>\<open>init\<close> up to the first \<^verbatim>\<open>handleRoute\<close>: build the routes, then draw the tree.\<close>

definition boot :: "manifest_node list \<Rightarrow> string \<Rightarrow> router_state" where
  "boot root p = (buildRoutes root [] (page p))\<lparr>tree_links := buildFileTree root\<rparr>"

text \<open>The layout invariant of the chrome: four elements in one state, marker in step.\<close>

definition chrome_hidden :: "router_state \<Rightarrow> bool" where
  "chrome_hidden st =
     (sidebar_display st = ''none'' \<and> menu_toggle_display st = ''none'' \<and>
      overlay_display st = ''none'' \<and> breadcrumb_display st = ''none'')"

definition chrome_shown :: "router_state \<Rightarrow> bool" where
  "chrome_shown st =
     (sidebar_display st = [] \<and> menu_toggle_display st = [] \<and>
      overlay_display st = [] \<and> breadcrumb_display st = [])"

definition home_page_marker :: "router_state \<Rightarrow> bool" where
  "home_page_marker st = (''home-page'' \<in> set (app_classes st))"

definition chrome_consistent :: "router_state \<Rightarrow> bool" where
  "chrome_consistent st =
     ((chrome_hidden st \<or> chrome_shown st) \<and> (home_page_marker st \<longleftrightarrow> chrome_hidden st))"

subsection \<open>Sample inputs\<close>

definition nature :: "manifest_node list" where
  "nature =
     [ManifestNode ''Nature'' ''directory'' (JString ''/nature/README.html'')
        [ManifestNode ''Trees'' ''file'' (JString ''/nature/trees.html'') []]]"

definition twins :: "manifest_node list" where
  "twins =
     [ManifestNode ''A'' ''file'' (JString ''/a.html'') [],
      ManifestNode ''A2'' ''directory'' (JString ''/a/README.html'') []]"

definition slashless :: "manifest_node list" where
  "slashless = [ManifestNode ''T'' ''file'' (JString ''foo.html'') []]"

definition page_b :: route_data where
  "page_b = \<lparr>title = ''B'', rtype = ''file'', contentPath = JString ''/a/b.html'',
     parentPath = ''/notes/a'', namedRoute = ''notes''\<rparr>"

definition trees_entry :: route_data where
  "trees_entry = \<lparr>title = ''Trees'', rtype = ''file'', contentPath = JString ''/nature/trees.html'',
     parentPath = ''/notes/nature'', namedRoute = ''notes''\<rparr>"

text \<open>
  The sample browser: for a URL written as an absolute path, \<^verbatim>\<open>location.pathname\<close> is
  what precedes the query and the fragment. In \<open>offline\<close> every fetch is rejected, in
  \<open>online\<close> every fetch succeeds.
\<close>

definition path_component :: "string \<Rightarrow> string" where
  "path_component url = takeWhile (\<lambda>c. c \<noteq> CHR ''?'' \<and> c \<noteq> CHR ''#'') url"

definition offline :: env where
  "offline = \<lparr>fetch = (\<lambda>u. FetchRejected), url_pathname = path_component\<rparr>"

definition online :: env where
  "online = \<lparr>fetch = (\<lambda>u. FetchResponse True (''<p>content of '' @ u @ ''</p>'')),
              url_pathname = path_component\<rparr>"

definition faq :: "manifest_node list" where
  "faq = [ManifestNode ''Why?'' ''file'' (JString ''/faq/why?.html'') []]"

section \<open>Path Normalizer\<close>

lemma length_strip_html: "length (strip_html s) \<le> length s"
  by (simp add: strip_html_def)

lemma length_strip_readme: "length (strip_readme s) \<le> length s"
  by (simp add: strip_readme_def)

lemma strip_html_shorter:
  assumes "endsWith s ''.html''"
  shows "length (strip_html s) < length s"
proof -
  from assms have "5 \<le> length s" unfolding endsWith_def by simp
  with assms show ?thesis unfolding strip_html_def by simp
qed

lemma strip_readme_shorter:
  assumes "endsWith_ci s ''/README''"
  shows "length (strip_readme s) < length s"
proof -
  from assms have "7 \<le> length s" unfolding endsWith_ci_def by simp
  with assms show ?thesis unfolding strip_readme_def by simp
qed

lemma pathToSubRoute_JString:
  "pathToSubRoute (JString q) = strip_readme (strip_readme (strip_html q))"
  by (cases "q = []")
     (simp_all add: pathToSubRoute_def falsy_def template_def strip_readme_def strip_html_def
        endsWith_def endsWith_ci_def)

lemma pathToSubRoute_fixed_iff:
  "pathToSubRoute (JString q) = q \<longleftrightarrow> \<not> endsWith q ''.html'' \<and> \<not> endsWith_ci q ''/README''"
proof (cases "endsWith q ''.html''")
  case True
  have "length (strip_readme (strip_readme (strip_html q))) < length q"
    using strip_html_shorter[OF True] length_strip_readme[of "strip_readme (strip_html q)"]
      length_strip_readme[of "strip_html q"]
    by linarith
  then show ?thesis using True by (auto simp: pathToSubRoute_JString)
next
  case False
  then have h: "strip_html q = q" by (simp add: strip_html_def)
  show ?thesis
  proof (cases "endsWith_ci q ''/README''")
    case True
    have "length (strip_readme (strip_readme q)) < length q"
      using strip_readme_shorter[OF True] length_strip_readme[of "strip_readme q"] by linarith
    then show ?thesis using True h by (auto simp: pathToSubRoute_JString)
  next
    case no_readme: False
    then have "strip_readme q = q" by (simp add: strip_readme_def)
    then show ?thesis using False no_readme h by (simp add: pathToSubRoute_JString)
  qed
qed

lemmas normalizer_eval =
  pathToSubRoute_JString strip_readme_def strip_html_def endsWith_def endsWith_ci_def
  ascii_upper_def

text \<open>
  Claim C3, as the code has it. \<^const>\<open>pathToSubRoute\<close> is a function of its argument alone,
  so equal content paths give equal sub-paths. It removes at most one \<^verbatim>\<open>.html\<close> and at
  most two \<^verbatim>\<open>/README\<close> endings per call, so normalizing a normalized path changes nothing
  exactly when the normalized path ends neither in \<^verbatim>\<open>.html\<close> nor, in any letter case, in
  \<^verbatim>\<open>/README\<close>.
\<close>

theorem pathToSubRoute_idempotent_iff:
  "pathToSubRoute (JString (pathToSubRoute p)) = pathToSubRoute p \<longleftrightarrow>
     \<not> endsWith (pathToSubRoute p) ''.html'' \<and> \<not> endsWith_ci (pathToSubRoute p) ''/README''"
  by (rule pathToSubRoute_fixed_iff)

theorem pathToSubRoute_idempotent_iff_witness:
  "pathToSubRoute (JString ''/nature/README.html'') = ''/nature'' \<and>
   pathToSubRoute (JString (pathToSubRoute (JString ''/nature/README.html''))) =
     pathToSubRoute (JString ''/nature/README.html'')"
proof -
  have v: "pathToSubRoute (JString ''/nature/README.html'') = ''/nature''"
    by (simp add: pathToSubRoute_JString strip_readme_def strip_html_def endsWith_def
        endsWith_ci_def ascii_upper_def)
  have "\<not> endsWith ''/nature'' ''.html'' \<and> \<not> endsWith_ci ''/nature'' ''/README''"
    by (simp add: endsWith_def endsWith_ci_def ascii_upper_def)
  with pathToSubRoute_idempotent_iff [of "JString ''/nature/README.html''"] v
  show ?thesis by simp
qed

text \<open>
  Claim C3 as stated fails: a content path ending in \<^verbatim>\<open>.html.html\<close> loses one ending per
  call, so the second call changes the result of the first.
\<close>

theorem pathToSubRoute_not_idempotent:
  "pathToSubRoute (JString (pathToSubRoute (JString ''/a.html.html''))) \<noteq>
     pathToSubRoute (JString ''/a.html.html'')"
  by (simp add: pathToSubRoute_JString strip_readme_def strip_html_def endsWith_def
      endsWith_ci_def ascii_upper_def)

section \<open>Route Table Builder\<close>

lemma buildRoutes_eq:
  "buildRoutes items parent st =
     st\<lparr>routes := set_all (entries items parent) (routes st),
        flatRoutes := flatRoutes st @ map flat_entry (nodes items)\<rparr>"
  "buildItem item parent st =
     st\<lparr>routes := set_all (entries_item item parent) (routes st),
        flatRoutes := flatRoutes st @ map flat_entry (nodes_item item)\<rparr>"
  by (induction items parent st and item parent st rule: buildRoutes_buildItem.induct)
     (simp_all add: set_all_def Let_def pathToRoute_def route_entry_def flat_entry_def)

lemma entries_flat:
  "map (\<lambda>e. \<lparr>route = fst e, flat_title = title (snd e), flat_type = rtype (snd e),
               flat_contentPath = contentPath (snd e)\<rparr>) (entries items parent) =
     map flat_entry (nodes items)"
  "map (\<lambda>e. \<lparr>route = fst e, flat_title = title (snd e), flat_type = rtype (snd e),
               flat_contentPath = contentPath (snd e)\<rparr>) (entries_item item parent) =
     map flat_entry (nodes_item item)"
  by (induction items parent and item parent rule: entries_entries_item.induct)
     (simp_all add: flat_entry_def route_entry_def pathToRoute_def)

lemma entries_keys:
  "map fst (entries items parent) = map (\<lambda>n. pathToRoute (content_path n)) (nodes items)"
  "map fst (entries_item item parent) = map (\<lambda>n. pathToRoute (content_path n)) (nodes_item item)"
  by (induction items parent and item parent rule: entries_entries_item.induct) simp_all

lemma entries_nodes:
  "map (\<lambda>e. (fst e, title (snd e), rtype (snd e), contentPath (snd e))) (entries items parent) =
     map (\<lambda>item. (''/notes'' @ pathToSubRoute (content_path item), item_title item,
                  item_type item, content_path item)) (nodes items)"
  "map (\<lambda>e. (fst e, title (snd e), rtype (snd e), contentPath (snd e)))
       (entries_item item parent) =
     map (\<lambda>item. (''/notes'' @ pathToSubRoute (content_path item), item_title item,
                  item_type item, content_path item)) (nodes_item item)"
  by (induction items parent and item parent rule: entries_entries_item.induct)
     (simp_all add: route_entry_def pathToRoute_def)

lemma map_of_key: "k \<in> fst ` set rs \<Longrightarrow> map_of rs k \<noteq> None"
  by (simp add: map_of_eq_None_iff)

lemma map_of_set_all: "map_of (set_all es al) = map_of al ++ map_of (rev es)"
  unfolding set_all_def
proof (induction es arbitrary: al)
  case Nil show ?case by simp
next
  case (Cons e es)
  show ?case by (simp add: Cons.IH update_conv' map_add_def fun_eq_iff split: option.splits)
qed

lemma keys_set_all: "fst ` set (set_all es al) = fst ` set al \<union> fst ` set es"
  unfolding set_all_def
  by (induction es arbitrary: al) (auto simp: AList.dom_update)

lemma distinct_set_all: "distinct (map fst al) \<Longrightarrow> distinct (map fst (set_all es al))"
  unfolding set_all_def
  by (induction es arbitrary: al) (auto simp: AList.distinct_update)

lemma keys_set_all_present:
  "fst ` set es \<subseteq> fst ` set al \<Longrightarrow> map fst (set_all es al) = map fst al"
  unfolding set_all_def
proof (induction es arbitrary: al)
  case Nil show ?case by simp
next
  case (Cons e es)
  from Cons.prems have k: "fst e \<in> fst ` set al" by simp
  then have same: "map fst (AList.update (fst e) (snd e) al) = map fst al"
    by (simp add: AList.update_keys)
  then have "fst ` set (AList.update (fst e) (snd e) al) = fst ` set al"
    by (metis set_map)
  with Cons.prems have "fst ` set es \<subseteq> fst ` set (AList.update (fst e) (snd e) al)" by simp
  from Cons.IH[OF this] same show ?case by simp
qed

lemma alist_eqI:
  "distinct (map fst xs) \<Longrightarrow> map fst xs = map fst ys \<Longrightarrow> map_of xs = map_of ys \<Longrightarrow> xs = ys"
proof (induction xs arbitrary: ys)
  case Nil then show ?case by simp
next
  case (Cons x xs)
  then obtain y ys' where ys: "ys = y # ys'" by (cases ys) auto
  from Cons.prems ys have k: "fst x = fst y" and ks: "map fst xs = map fst ys'" by auto
  from Cons.prems(3) ys k have "snd x = snd y"
    by (metis fun_upd_same map_of.simps(2) option.inject)
  with k have xy: "x = y" by (simp add: prod_eq_iff)
  have "map_of xs = map_of ys'"
  proof
    fix a
    show "map_of xs a = map_of ys' a"
    proof (cases "a = fst x")
      case True
      with Cons.prems(1) have "a \<notin> fst ` set xs" by auto
      moreover from this ks have "a \<notin> fst ` set ys'" by (metis set_map)
      ultimately have "map_of xs a = None" "map_of ys' a = None"
        by (simp_all add: map_of_eq_None_iff)
      then show ?thesis by simp
    next
      case False
      with Cons.prems(3) ys k show ?thesis
        by (metis fun_upd_other map_of.simps(2))
    qed
  qed
  with Cons.IH[of ys'] Cons.prems(1) ks xy ys show ?case by simp
qed

lemma set_all_idem:
  assumes "distinct (map fst al)"
  shows "set_all es (set_all es al) = set_all es al"
proof (rule alist_eqI)
  show "distinct (map fst (set_all es (set_all es al)))"
    by (intro distinct_set_all assms)
  show "map fst (set_all es (set_all es al)) = map fst (set_all es al)"
    by (rule keys_set_all_present) (simp add: keys_set_all)
  show "map_of (set_all es (set_all es al)) = map_of (set_all es al)"
    by (simp add: map_of_set_all map_add_def fun_eq_iff split: option.splits)
qed

lemma page_tables:
  "routes (page p) = []" "flatRoutes (page p) = []" "pathname (page p) = p"
  "history (page p) = []" "fetched (page p) = []" "content_body (page p) = []"
  "breadcrumb_html (page p) = []"
  by (simp_all add: page_def)

lemma boot_tables:
  "routes (boot root p) = routes (buildRoutes root [] (page p))"
  "flatRoutes (boot root p) = flatRoutes (buildRoutes root [] (page p))"
  "pathname (boot root p) = p" "history (boot root p) = []" "fetched (boot root p) = []"
  by (simp_all add: boot_def buildRoutes_eq(1) page_tables)

lemma boot_current: "p \<noteq> [] \<Longrightarrow> getCurrentRoute (boot root p) = p"
  by (simp add: getCurrentRoute_def boot_tables)

lemma built_nature:
  "buildRoutes nature [] (page p) =
     (page p)\<lparr>routes :=
       [(''/notes/nature'',
         \<lparr>title = ''Nature'', rtype = ''directory'', contentPath = JString ''/nature/README.html'',
          parentPath = [], namedRoute = ''notes''\<rparr>),
        (''/notes/nature/trees'', trees_entry)],
      flatRoutes :=
       [\<lparr>route = ''/notes/nature'', flat_title = ''Nature'', flat_type = ''directory'',
         flat_contentPath = JString ''/nature/README.html''\<rparr>,
        \<lparr>route = ''/notes/nature/trees'', flat_title = ''Trees'', flat_type = ''file'',
         flat_contentPath = JString ''/nature/trees.html''\<rparr>]\<rparr>"
  by (simp add: nature_def page_def trees_entry_def Let_def normalizer_eval)

lemma boot_nature_tables:
  "routes (boot nature p) =
     [(''/notes/nature'',
       \<lparr>title = ''Nature'', rtype = ''directory'', contentPath = JString ''/nature/README.html'',
        parentPath = [], namedRoute = ''notes''\<rparr>),
      (''/notes/nature/trees'', trees_entry)]"
  "flatRoutes (boot nature p) =
     [\<lparr>route = ''/notes/nature'', flat_title = ''Nature'', flat_type = ''directory'',
       flat_contentPath = JString ''/nature/README.html''\<rparr>,
      \<lparr>route = ''/notes/nature/trees'', flat_title = ''Trees'', flat_type = ''file'',
       flat_contentPath = JString ''/nature/trees.html''\<rparr>]"
  "pathname (boot nature p) = p"
  "history (boot nature p) = []"
  by (simp_all add: boot_def nature_def page_def trees_entry_def Let_def pathToSubRoute_JString
      strip_readme_def strip_html_def endsWith_def endsWith_ci_def ascii_upper_def)

lemma built_twins:
  "buildRoutes twins [] (page p) =
     (page p)\<lparr>routes :=
       [(''/notes/a'',
         \<lparr>title = ''A2'', rtype = ''directory'', contentPath = JString ''/a/README.html'',
          parentPath = [], namedRoute = ''notes''\<rparr>)],
      flatRoutes :=
       [\<lparr>route = ''/notes/a'', flat_title = ''A'', flat_type = ''file'',
         flat_contentPath = JString ''/a.html''\<rparr>,
        \<lparr>route = ''/notes/a'', flat_title = ''A2'', flat_type = ''directory'',
         flat_contentPath = JString ''/a/README.html''\<rparr>]\<rparr>"
  by (simp add: twins_def page_def Let_def normalizer_eval)

lemma built_slashless:
  "buildRoutes slashless [] (page p) =
     (page p)\<lparr>routes :=
       [(''/notesfoo'',
         \<lparr>title = ''T'', rtype = ''file'', contentPath = JString ''foo.html'',
          parentPath = [], namedRoute = ''notes''\<rparr>)],
      flatRoutes :=
       [\<lparr>route = ''/notesfoo'', flat_title = ''T'', flat_type = ''file'',
         flat_contentPath = JString ''foo.html''\<rparr>]\<rparr>"
  by (simp add: slashless_def page_def Let_def normalizer_eval)

lemma built_faq:
  "routes (boot faq p) =
     [(''/notes/faq/why?'',
       \<lparr>title = ''Why?'', rtype = ''file'', contentPath = JString ''/faq/why?.html'',
        parentPath = [], namedRoute = ''notes''\<rparr>)]"
  by (simp add: boot_tables faq_def page_def Let_def normalizer_eval)

text \<open>
  Claim C2, as the code has it. \<^const>\<open>buildRoutes\<close> writes an entry for every node of the
  forest, in depth-first pre-order, under the key \<^verbatim>\<open>'/notes'\<close> followed by the normalized
  content path; it has no test that skips a node. Started on a table with distinct keys
  (a \<^verbatim>\<open>Map\<close>; the empty table of a new router is one), it leaves a table with distinct
  keys, whose keys are the old keys and the keys of all nodes, children included, and
  which holds under each key the entry written last for it, the writes being one per
  node in pre-order with the node's key, title, type and content path. A node whose
  content path is missing, \<^verbatim>\<open>null\<close> or empty is keyed at the section root \<^verbatim>\<open>/notes\<close> and
  does get an entry.
\<close>

theorem buildRoutes_table:
  assumes "distinct (map fst (routes st))"
  shows "distinct (map fst (routes (buildRoutes root parent st))) \<and>
         fst ` set (routes (buildRoutes root parent st)) =
           fst ` set (routes st) \<union>
           (\<lambda>item. ''/notes'' @ pathToSubRoute (content_path item)) ` set (nodes root) \<and>
         map_of (routes (buildRoutes root parent st)) =
           map_of (routes st) ++ map_of (rev (entries root parent)) \<and>
         map (\<lambda>e. (fst e, title (snd e), rtype (snd e), contentPath (snd e)))
             (entries root parent) =
           map (\<lambda>item. (''/notes'' @ pathToSubRoute (content_path item), item_title item,
                        item_type item, content_path item)) (nodes root) \<and>
         (\<forall>item \<in> set (nodes root). falsy (content_path item) \<longrightarrow>
            map_of (routes (buildRoutes root parent st)) ''/notes'' \<noteq> None)"
proof -
  let ?key = "\<lambda>item. ''/notes'' @ pathToSubRoute (content_path item)"
  have r: "routes (buildRoutes root parent st) = set_all (entries root parent) (routes st)"
    by (simp add: buildRoutes_eq(1))
  have ks: "map fst (entries root parent) = map ?key (nodes root)"
    using entries_keys(1)[of root parent] by (simp add: pathToRoute_def)
  then have img: "fst ` set (entries root parent) = ?key ` set (nodes root)"
    by (metis set_map)
  have d: "distinct (map fst (routes (buildRoutes root parent st)))"
    unfolding r by (rule distinct_set_all[OF assms])
  have k: "fst ` set (routes (buildRoutes root parent st)) =
      fst ` set (routes st) \<union> ?key ` set (nodes root)"
    unfolding r by (simp add: keys_set_all img)
  have m: "map_of (routes (buildRoutes root parent st)) =
      map_of (routes st) ++ map_of (rev (entries root parent))"
    unfolding r by (rule map_of_set_all)
  have f: "\<forall>item \<in> set (nodes root). falsy (content_path item) \<longrightarrow>
      map_of (routes (buildRoutes root parent st)) ''/notes'' \<noteq> None"
  proof (intro ballI impI)
    fix item assume "item \<in> set (nodes root)" and "falsy (content_path item)"
    then have "''/notes'' \<in> ?key ` set (nodes root)"
      by (force simp add: pathToSubRoute_def)
    with k have "''/notes'' \<in> fst ` set (routes (buildRoutes root parent st))" by simp
    then show "map_of (routes (buildRoutes root parent st)) ''/notes'' \<noteq> None"
      by (rule map_of_key)
  qed
  from d k m entries_nodes(1)[of root parent] f show ?thesis by blast
qed

theorem buildRoutes_table_witness:
  "distinct (map fst (routes (buildRoutes nature [] (page ''/'')))) \<and>
   fst ` set (routes (buildRoutes nature [] (page ''/''))) =
     {''/notes/nature'', ''/notes/nature/trees''} \<and>
   map_of (routes (buildRoutes nature [] (page ''/''))) ''/notes/nature/trees'' = Some trees_entry"
proof -
  have d: "distinct (map fst (routes (page ''/'')))" by (simp add: page_tables)
  from buildRoutes_table [OF d, of nature "[]"] show ?thesis
    by (simp add: page_tables nature_def trees_entry_def normalizer_eval pathToRoute_def
        route_entry_def insert_commute)
qed

text \<open>
  Claim C2 as stated fails: a node with a \<^verbatim>\<open>null\<close> content path does produce a route
  entry, under \<^verbatim>\<open>/notes\<close>.
\<close>

theorem buildRoutes_routes_missing_path:
  "map_of (routes (buildRoutes [ManifestNode ''X'' ''directory'' JNull []] [] (page ''/'')))
     ''/notes'' =
   Some \<lparr>title = ''X'', rtype = ''directory'', contentPath = JNull, parentPath = [],
         namedRoute = ''notes''\<rparr>"
  by (simp add: page_def Let_def pathToSubRoute_def falsy_def)

text \<open>
  Claim C8, as the code has it. A second \<^const>\<open>buildRoutes\<close> on the same forest leaves the
  Route Table as the first left it: every \<^verbatim>\<open>set\<close> meets a key that is there and ends on
  the same last value. FlatRouteList is pushed to, not overwritten: after the second
  call it is the list after the first call followed by one more entry per node, so
  twice the list where the router started with an empty one.
\<close>

theorem buildRoutes_twice:
  assumes "distinct (map fst (routes st))"
  shows "routes (buildRoutes root parent (buildRoutes root parent st)) =
           routes (buildRoutes root parent st) \<and>
         flatRoutes (buildRoutes root parent (buildRoutes root parent st)) =
           flatRoutes (buildRoutes root parent st) @ map flat_entry (nodes root) \<and>
         (flatRoutes st = [] \<longrightarrow>
            flatRoutes (buildRoutes root parent (buildRoutes root parent st)) =
              flatRoutes (buildRoutes root parent st) @ flatRoutes (buildRoutes root parent st)) \<and>
         length (flatRoutes (buildRoutes root parent (buildRoutes root parent st))) =
           length (flatRoutes (buildRoutes root parent st)) + length (nodes root)"
  using set_all_idem[OF assms, of "entries root parent"]
  by (simp add: buildRoutes_eq(1))

theorem buildRoutes_twice_witness:
  "routes (buildRoutes nature [] (buildRoutes nature [] (page ''/''))) =
     routes (buildRoutes nature [] (page ''/'')) \<and>
   length (flatRoutes (buildRoutes nature [] (buildRoutes nature [] (page ''/'')))) = 4"
proof -
  have d: "distinct (map fst (routes (page ''/'')))" by (simp add: page_tables)
  have once: "length (flatRoutes (buildRoutes nature [] (page ''/''))) = 2"
    by (simp add: built_nature)
  have two: "length (nodes nature) = 2" by (simp add: nature_def)
  from buildRoutes_twice [OF d, of nature "[]"]
  have same: "routes (buildRoutes nature [] (buildRoutes nature [] (page ''/''))) =
      routes (buildRoutes nature [] (page ''/''))"
    and grown: "length (flatRoutes (buildRoutes nature [] (buildRoutes nature [] (page ''/'')))) =
      length (flatRoutes (buildRoutes nature [] (page ''/''))) + length (nodes nature)"
    by blast+
  from same grown once two show ?thesis by simp
qed

text \<open>
  Claim C8 as stated fails for FlatRouteList: the second call on the sample manifest
  leaves four flat entries where the first left two.
\<close>

theorem buildRoutes_twice_appends:
  "flatRoutes (buildRoutes nature [] (buildRoutes nature [] (page ''/''))) \<noteq>
     flatRoutes (buildRoutes nature [] (page ''/'')) \<and>
   length (flatRoutes (buildRoutes nature [] (page ''/''))) = 2 \<and>
   length (flatRoutes (buildRoutes nature [] (buildRoutes nature [] (page ''/'')))) = 4"
  by (simp add: buildRoutes_eq(1) nature_def page_tables)

section \<open>One pass of the main handler\<close>

lemma tables_applyLayout [simp]:
  "routes (applyLayout nr st) = routes st" "flatRoutes (applyLayout nr st) = flatRoutes st"
  by (simp_all add: applyLayout_def)

lemma tables_updateTopNav [simp]:
  "routes (updateTopNav nr st) = routes st" "flatRoutes (updateTopNav nr st) = flatRoutes st"
  by (simp_all add: updateTopNav_def)

lemma tables_write_history [simp]:
  "routes (write_history e t r st) = routes st" "flatRoutes (write_history e t r st) = flatRoutes st"
  by (simp_all add: write_history_def)

lemma section_pass_fetched [simp]:
  "fetched (write_history e t r (updateTopNav nr (applyLayout nr st))) = fetched st"
  by (simp add: write_history_def updateTopNav_def applyLayout_def)

lemma getCurrentRoute_write_history:
  "url_pathname e t = t \<Longrightarrow> t \<noteq> [] \<Longrightarrow> getCurrentRoute (write_history e t r st) = t"
  by (simp add: getCurrentRoute_def write_history_def)

lemma handleRoute_unresolved:
  assumes "resolveNamedRoute (getCurrentRoute st) = None"
  shows "handleRoute (Suc n) e st = Some (show404 (updateTopNav None (applyLayout None st)))"
  using assms by (simp add: Let_def)

lemma handleRoute_found:
  assumes "resolveNamedRoute (getCurrentRoute st) = Some Notes"
    and "map_of (routes st) (getCurrentRoute st) = Some routeData"
  shows "handleRoute (Suc n) e st =
     Some ((updateBreadcrumb (getCurrentRoute st) routeData
             (updateActiveNav (getCurrentRoute st)
               (renderNotes e routeData (updateTopNav (Some Notes) (applyLayout (Some Notes) st)))))
           \<lparr>document_title := title routeData @ '' - Doc.''\<rparr>)"
  using assms by (simp add: Let_def)

lemma handleRoute_first:
  assumes "getCurrentRoute st = ''/notes''"
    and "map_of (routes st) ''/notes'' = None"
    and "flatRoutes st = firstRoute # others"
  shows "handleRoute (Suc n) e st =
     navigate n e (route firstRoute) True (updateTopNav (Some Notes) (applyLayout (Some Notes) st))"
proof -
  have "resolveNamedRoute ''/notes'' = Some Notes" by (simp add: resolveNamedRoute_def)
  with assms show ?thesis by (simp add: Let_def)
qed

lemma handleRoute_fallback:
  assumes "resolveNamedRoute (getCurrentRoute st) = Some Notes"
    and "map_of (routes st) (getCurrentRoute st) = None"
    and "getCurrentRoute st \<noteq> ''/notes'' \<or> flatRoutes st = []"
  shows "handleRoute (Suc n) e st =
     (case findMatchingRoute (getCurrentRoute st) (routes st) of
        Some matchedRoute \<Rightarrow>
          if matchedRoute \<noteq> [] then
            navigate n e matchedRoute True (updateTopNav (Some Notes) (applyLayout (Some Notes) st))
          else Some (show404 (updateTopNav (Some Notes) (applyLayout (Some Notes) st)))
      | None \<Rightarrow> Some (show404 (updateTopNav (Some Notes) (applyLayout (Some Notes) st))))"
  using assms by (auto simp add: Let_def split: option.splits)

lemma handleRoute_static:
  assumes "map_of (routes st) (getCurrentRoute st) \<noteq> None"
  shows "\<exists>st'. handleRoute (Suc n) e st = Some st' \<and> history st' = history st \<and>
               pathname st' = pathname st \<and> routes st' = routes st \<and> flatRoutes st' = flatRoutes st"
proof (cases "resolveNamedRoute (getCurrentRoute st)")
  case None
  then show ?thesis
    by (simp add: handleRoute_unresolved show404_def updateTopNav_def applyLayout_def)
next
  case (Some r)
  show ?thesis
  proof (cases r)
    case Home
    with Some show ?thesis
      by (simp add: Let_def renderHome_def updateTopNav_def applyLayout_def)
  next
    case About
    with Some show ?thesis
      by (simp add: Let_def renderAbout_def updateTopNav_def applyLayout_def)
  next
    case Notes
    from assms obtain rd where rd: "map_of (routes st) (getCurrentRoute st) = Some rd" by auto
    from Some Notes have "resolveNamedRoute (getCurrentRoute st) = Some Notes" by simp
    from handleRoute_found[OF this rd] show ?thesis
      by (simp add: updateBreadcrumb_def updateActiveNav_def renderNotes_def Let_def
          updateTopNav_def applyLayout_def split: sum.splits)
  qed
qed

lemma handleRoute_rendered:
  assumes "resolveNamedRoute (getCurrentRoute st) = Some Notes"
    and "map_of (routes st) (getCurrentRoute st) = Some rd"
  shows "\<exists>st'. handleRoute (Suc n) e st = Some st' \<and>
               history st' = history st \<and> pathname st' = pathname st \<and>
               document_title st' = title rd @ '' - Doc.'' \<and>
               fetched st' = fetched st @ [content_url rd] \<and>
               content_body st' =
                 (case try_fetch e rd of Inr text \<Rightarrow> text | Inl error \<Rightarrow> load_error_markup rd) \<and>
               breadcrumb_html st' = concat (map crumb_html (breadcrumb (getCurrentRoute st) rd))"
  by (simp add: handleRoute_found[OF assms] updateBreadcrumb_def updateActiveNav_def
      renderNotes_def Let_def updateTopNav_def applyLayout_def del: handleRoute.simps
      split: sum.splits)

section \<open>Named Route Resolver\<close>

text \<open>
  Claim C4. \<^const>\<open>resolveNamedRoute\<close> depends on the path only and takes the first test
  that matches: \<^verbatim>\<open>/\<close> is home and nothing else is; \<^verbatim>\<open>/about\<close> is about and nothing else
  is; the paths equal to \<^verbatim>\<open>/notes\<close> or beginning with \<^verbatim>\<open>/notes/\<close> or \<^verbatim>\<open>/notes?\<close> are
  notes and no others are; every other path, \<^verbatim>\<open>/notesfoo\<close> among them, resolves to none.
  On a path that resolves to none the handler ends in one pass on the NotFound page,
  with the breadcrumb \<^verbatim>\<open>Home / 404\<close>, no history write and no fetch.
\<close>

theorem resolveNamedRoute_first_match:
  "(resolveNamedRoute p = Some Home \<longleftrightarrow> p = ''/'') \<and>
   (resolveNamedRoute p = Some About \<longleftrightarrow> p = ''/about'') \<and>
   (resolveNamedRoute p = Some Notes \<longleftrightarrow>
      p = ''/notes'' \<or> startsWith p ''/notes/'' \<or> startsWith p ''/notes?'') \<and>
   (resolveNamedRoute p = None \<longleftrightarrow>
      p \<noteq> ''/'' \<and> p \<noteq> ''/about'' \<and> p \<noteq> ''/notes'' \<and>
      \<not> startsWith p ''/notes/'' \<and> \<not> startsWith p ''/notes?'') \<and>
   resolveNamedRoute ''/notesfoo'' = None \<and>
   (resolveNamedRoute (getCurrentRoute st) = None \<longrightarrow>
      (\<exists>st'. handleRoute (Suc n) e st = Some st' \<and>
         content_body st' = not_found_markup \<and>
         breadcrumb_html st' = not_found_breadcrumb \<and>
         history st' = history st \<and> fetched st' = fetched st))"
proof -
  have 1: "resolveNamedRoute p = Some Home \<longleftrightarrow> p = ''/''"
    by (simp add: resolveNamedRoute_def)
  have 2: "resolveNamedRoute p = Some About \<longleftrightarrow> p = ''/about''"
    by (auto simp add: resolveNamedRoute_def)
  have 3: "resolveNamedRoute p = Some Notes \<longleftrightarrow>
      p = ''/notes'' \<or> startsWith p ''/notes/'' \<or> startsWith p ''/notes?''"
    by (auto simp add: resolveNamedRoute_def startsWith_def)
  have 4: "resolveNamedRoute p = None \<longleftrightarrow>
      p \<noteq> ''/'' \<and> p \<noteq> ''/about'' \<and> p \<noteq> ''/notes'' \<and>
      \<not> startsWith p ''/notes/'' \<and> \<not> startsWith p ''/notes?''"
    by (auto simp add: resolveNamedRoute_def)
  have 5: "resolveNamedRoute ''/notesfoo'' = None"
    by (simp add: resolveNamedRoute_def startsWith_def)
  have 6: "resolveNamedRoute (getCurrentRoute st) = None \<longrightarrow>
      (\<exists>st'. handleRoute (Suc n) e st = Some st' \<and>
         content_body st' = not_found_markup \<and>
         breadcrumb_html st' = not_found_breadcrumb \<and>
         history st' = history st \<and> fetched st' = fetched st)"
    by (simp add: handleRoute_unresolved show404_def updateTopNav_def applyLayout_def showSidebar_def)
  from 1 2 3 4 5 6 show ?thesis by blast
qed

theorem resolveNamedRoute_first_match_witness:
  "resolveNamedRoute (getCurrentRoute (page ''/notesfoo'')) = None \<and>
   (\<exists>st'. handleRoute 1 offline (page ''/notesfoo'') = Some st' \<and>
      content_body st' = not_found_markup \<and> breadcrumb_html st' = not_found_breadcrumb)"
proof -
  have h: "resolveNamedRoute (getCurrentRoute (page ''/notesfoo'')) = None"
    by (simp add: resolveNamedRoute_def getCurrentRoute_def page_def startsWith_def)
  with resolveNamedRoute_first_match [of "''/notesfoo''" "page ''/notesfoo''" 0 offline]
  show ?thesis by auto
qed

section \<open>Layout\<close>

lemma applyLayout_hidden:
  "\<not> showSidebar nr \<Longrightarrow> chrome_hidden (applyLayout nr st) \<and> home_page_marker (applyLayout nr st)"
  by (simp add: applyLayout_def chrome_hidden_def home_page_marker_def class_add_def)

lemma applyLayout_shown:
  "showSidebar nr \<Longrightarrow> chrome_shown (applyLayout nr st) \<and> \<not> home_page_marker (applyLayout nr st)"
  by (simp add: applyLayout_def chrome_shown_def home_page_marker_def class_remove_def)

lemma hidden_not_shown: "chrome_hidden st \<Longrightarrow> \<not> chrome_shown st"
  by (auto simp add: chrome_hidden_def chrome_shown_def)

lemma applyLayout_consistent: "chrome_consistent (applyLayout nr st)"
  using applyLayout_hidden[of nr st] applyLayout_shown[of nr st] hidden_not_shown
  by (auto simp: chrome_consistent_def)

lemma fold_applyLayout_consistent:
  "nrs \<noteq> [] \<Longrightarrow> chrome_consistent (fold applyLayout nrs st)"
proof (induction nrs arbitrary: st rule: rev_induct)
  case Nil then show ?case by simp
next
  case (snoc nr nrs)
  show ?case by (simp add: applyLayout_consistent)
qed

lemmas chrome_defs =
  chrome_consistent_def chrome_hidden_def chrome_shown_def home_page_marker_def

lemma handleRoute_consistent:
  "handleRoute n e st = Some st' \<Longrightarrow> chrome_consistent st'"
proof (induction n arbitrary: st st')
  case 0
  then show ?case by simp
next
  case (Suc n)
  let ?c = "getCurrentRoute st"
  let ?nr = "resolveNamedRoute ?c"
  let ?st1 = "updateTopNav ?nr (applyLayout ?nr st)"
  have base: "chrome_consistent ?st1"
    using applyLayout_consistent[of ?nr st]
    by (simp add: chrome_defs updateTopNav_def)
  have shown: "chrome_consistent (show404 ?st1)"
    using base by (simp add: chrome_defs show404_def)
  have moved: "chrome_consistent s'"
    if "handleRoute n e (write_history e t True ?st1) = Some s'" for t s'
    using that by (rule Suc.IH)
  show ?case
  proof (cases ?nr)
    case None
    with Suc.prems shown show ?thesis by (simp add: Let_def)
  next
    case (Some r)
    show ?thesis
    proof (cases r)
      case Home
      with Some Suc.prems have "st' = (renderHome ?st1)\<lparr>document_title := ''Home - Doc.''\<rparr>"
        by (simp add: Let_def)
      with base show ?thesis
        by (simp add: chrome_defs renderHome_def)
    next
      case About
      with Some Suc.prems have "st' = (renderAbout ?st1)\<lparr>document_title := ''About - Doc.''\<rparr>"
        by (simp add: Let_def)
      with base show ?thesis
        by (simp add: chrome_defs renderAbout_def)
    next
      case Notes
      with Some have named: "?nr = Some Notes" by simp
      show ?thesis
      proof (cases "map_of (routes st) ?c")
        case (Some rd)
        from handleRoute_found[OF named Some] Suc.prems named
        have "st' = (updateBreadcrumb ?c rd (updateActiveNav ?c (renderNotes e rd ?st1)))
                      \<lparr>document_title := title rd @ '' - Doc.''\<rparr>"
          by (simp del: handleRoute.simps)
        with base show ?thesis
          by (simp add: chrome_defs updateBreadcrumb_def updateActiveNav_def
              renderNotes_def Let_def split: sum.splits)
      next
        case None
        show ?thesis
        proof (cases "?c = ''/notes'' \<and> flatRoutes st \<noteq> []")
          case True
          then obtain f fs where fl: "flatRoutes st = f # fs" by (cases "flatRoutes st") auto
          from True None have n2: "map_of (routes st) ''/notes'' = None" by simp
          from True have c2: "?c = ''/notes''" by simp
          from handleRoute_first[OF c2 n2 fl, of n e] Suc.prems named
          have "handleRoute n e (write_history e (route f) True ?st1) = Some st'"
            by (simp del: handleRoute.simps)
          then show ?thesis by (rule moved)
        next
          case False
          then have other: "?c \<noteq> ''/notes'' \<or> flatRoutes st = []" by simp
          note fb = handleRoute_fallback[OF named None other, of n e]
          show ?thesis
          proof (cases "findMatchingRoute ?c (routes st)")
            case None
            with fb Suc.prems named shown show ?thesis by (simp del: handleRoute.simps)
          next
            case (Some m)
            show ?thesis
            proof (cases "m = []")
              case True
              with fb Some Suc.prems named shown show ?thesis by (simp del: handleRoute.simps)
            next
              case False
              with fb Some Suc.prems named
              have "handleRoute n e (write_history e m True ?st1) = Some st'"
                by (simp del: handleRoute.simps)
              then show ?thesis by (rule moved)
            qed
          qed
        qed
      qed
    qed
  qed
qed

text \<open>
  Claim C9. Only the notes route shows the sidebar. After \<^const>\<open>applyLayout\<close> for a route
  that does not show it (home, about, none) all four chrome elements have
  \<^verbatim>\<open>display: none\<close> and the app root carries \<^verbatim>\<open>home-page\<close>; after \<^const>\<open>applyLayout\<close> for
  a route that shows it all four have the empty display and the marker is gone. So after
  one application, after any non-empty sequence of applications from any state, and
  at the end of every navigation (whose passes each begin with a layout application and
  write the chrome nowhere else), the four elements are in one visibility state and the
  marker is there exactly when they are hidden.
\<close>

theorem applyLayout_chrome:
  "(showSidebar nr \<longleftrightarrow> nr = Some Notes) \<and>
   (\<not> showSidebar nr \<longrightarrow>
      chrome_hidden (applyLayout nr st) \<and> home_page_marker (applyLayout nr st)) \<and>
   (showSidebar nr \<longrightarrow>
      chrome_shown (applyLayout nr st) \<and> \<not> home_page_marker (applyLayout nr st)) \<and>
   chrome_consistent (applyLayout nr st) \<and>
   (nrs \<noteq> [] \<longrightarrow> chrome_consistent (fold applyLayout nrs st)) \<and>
   (handleRoute n e st = Some st' \<longrightarrow> chrome_consistent st')"
proof -
  have "showSidebar nr \<longleftrightarrow> nr = Some Notes"
  proof (cases nr)
    case None then show ?thesis by (simp add: showSidebar_def)
  next
    case (Some r) then show ?thesis by (cases r) (simp_all add: showSidebar_def)
  qed
  then show ?thesis
    using applyLayout_hidden[of nr st] applyLayout_shown[of nr st]
      applyLayout_consistent[of nr st] fold_applyLayout_consistent[of nrs st]
      handleRoute_consistent[of n e st st']
    by blast
qed

theorem applyLayout_chrome_witness:
  "chrome_shown (applyLayout (Some Notes) (page ''/notes'')) \<and>
   \<not> home_page_marker (applyLayout (Some Notes) (page ''/notes'')) \<and>
   chrome_hidden (applyLayout (Some Home) (page ''/'')) \<and>
   home_page_marker (applyLayout (Some Home) (page ''/'')) \<and>
   chrome_consistent (fold applyLayout [Some Home, Some Notes, None, Some About] (page ''/'')) \<and>
   chrome_consistent (show404 (updateTopNav None (applyLayout None (page ''/notesfoo''))))"
proof -
  let ?seq = "[Some Home, Some Notes, None, Some About]"
  let ?lost = "show404 (updateTopNav None (applyLayout None (page ''/notesfoo'')))"
  have "resolveNamedRoute (getCurrentRoute (page ''/notesfoo'')) = None"
    by (simp add: resolveNamedRoute_def getCurrentRoute_def page_def startsWith_def)
  then have run: "handleRoute (Suc 0) offline (page ''/notesfoo'') = Some ?lost"
    by (rule handleRoute_unresolved)
  from applyLayout_chrome [where nr = "Some Notes" and st = "page ''/notes''" and nrs = ?seq]
    applyLayout_chrome [where nr = "Some Home" and st = "page ''/''" and nrs = ?seq]
    applyLayout_chrome [where st = "page ''/notesfoo''" and n = "Suc 0" and e = offline
      and st' = ?lost] run
  show ?thesis by (simp del: handleRoute.simps)
qed

section \<open>Breadcrumb\<close>

text \<open>
  Claim C5, as the code has it. \<^verbatim>\<open>'/notes/a/b'.split('/').filter(Boolean)\<close> has the three
  parts \<^verbatim>\<open>notes\<close>, \<^verbatim>\<open>a\<close>, \<^verbatim>\<open>b\<close>, and the loop writes one segment per part after the
  Home link. For a route titled \<^verbatim>\<open>B\<close> the breadcrumb has four segments: the link
  \<^verbatim>\<open>Home\<close> to \<^verbatim>\<open>/\<close>, the link \<^verbatim>\<open>notes\<close> to \<^verbatim>\<open>/notes\<close>, the link \<^verbatim>\<open>a\<close> to \<^verbatim>\<open>/notes/a\<close>,
  and the plain text \<^verbatim>\<open>B\<close>, with a separator before each but the first.
\<close>

theorem breadcrumb_notes_a_b:
  assumes "title routeData = ''B''"
  shows \<open>breadcrumb ''/notes/a/b'' routeData =
           [Link ''/'' ''Home'', Separator, Link ''/notes'' ''notes'', Separator,
            Link ''/notes/a'' ''a'', Separator, Plain ''B''] \<and>
         breadcrumb_html (updateBreadcrumb ''/notes/a/b'' routeData st) =
           ''<a href="/" data-link>Home</a><span>/</span>'' @
           ''<a href="/notes" data-link>notes</a><span>/</span>'' @
           ''<a href="/notes/a" data-link>a</a><span>/</span>B''\<close>
  using assms by (simp add: breadcrumb_def path_parts_def updateBreadcrumb_def Let_def)

theorem breadcrumb_notes_a_b_witness:
  "title page_b = ''B'' \<and>
   breadcrumb ''/notes/a/b'' page_b =
     [Link ''/'' ''Home'', Separator, Link ''/notes'' ''notes'', Separator,
      Link ''/notes/a'' ''a'', Separator, Plain ''B'']"
proof -
  have h: "title page_b = ''B''" by (simp add: page_b_def)
  from breadcrumb_notes_a_b [OF h, of "page ''/notes/a/b''"] h show ?thesis by simp
qed

text \<open>
  Claim C5 as stated fails: the segments are not the three it lists. The section
  segment \<^verbatim>\<open>notes\<close> is a link of its own between \<^verbatim>\<open>Home\<close> and \<^verbatim>\<open>a\<close>.
\<close>

theorem breadcrumb_four_segments:
  "filter (\<lambda>c. c \<noteq> Separator) (breadcrumb ''/notes/a/b'' page_b) \<noteq>
     [Link ''/'' ''Home'', Link ''/notes/a'' ''a'', Plain ''B''] \<and>
   length (filter (\<lambda>c. c \<noteq> Separator) (breadcrumb ''/notes/a/b'' page_b)) = 4 \<and>
   Link ''/notes'' ''notes'' \<in> set (breadcrumb ''/notes/a/b'' page_b)"
  by (simp add: breadcrumb_def path_parts_def Let_def page_b_def)

section \<open>Content Loader\<close>

lemma renderNotes_failure:
  "try_fetch e rd = Inl error \<Longrightarrow>
   renderNotes e rd st = st\<lparr>fetched := fetched st @ [content_url rd], content_body := load_error_markup rd\<rparr>"
  by (simp add: renderNotes_def Let_def)

lemma renderNotes_success:
  "try_fetch e rd = Inr text \<Longrightarrow>
   renderNotes e rd st = st\<lparr>fetched := fetched st @ [content_url rd], content_body := text\<rparr>"
  by (simp add: renderNotes_def Let_def)

lemma updateActiveNav_content [simp]:
  "updateActiveNav c (st\<lparr>content_body := b\<rparr>) = (updateActiveNav c st)\<lparr>content_body := b\<rparr>"
  by (simp add: updateActiveNav_def Let_def)

lemma updateBreadcrumb_content [simp]:
  "updateBreadcrumb c rd (st\<lparr>content_body := b\<rparr>) = (updateBreadcrumb c rd st)\<lparr>content_body := b\<rparr>"
  by (simp add: updateBreadcrumb_def)

text \<open>
  Claim C6. Take a path under the section whose Route is in the table, and a fetch of
  its content that is rejected or answered with a status that is not ok. The error of
  the \<^verbatim>\<open>try\<close> block ends in the \<^verbatim>\<open>catch\<close> clause: \<^const>\<open>renderNotes\<close> returns, with
  the content region showing \<^verbatim>\<open>Error loading:\<close> followed by the content path. The pass
  then finishes, and its final state is the final state of the same pass with a
  successful fetch in every field but the content region: same active links and open
  folders, same breadcrumb, same document title.
\<close>

theorem fetch_failure_recovered:
  assumes "resolveNamedRoute (getCurrentRoute st) = Some Notes"
    and "map_of (routes st) (getCurrentRoute st) = Some routeData"
    and "fetch e_fail (content_url routeData) = FetchRejected \<or>
         (\<exists>t. fetch e_fail (content_url routeData) = FetchResponse False t)"
    and "fetch e_ok (content_url routeData) = FetchResponse True text"
  shows "\<exists>s_fail s_ok.
           handleRoute (Suc n) e_fail st = Some s_fail \<and>
           handleRoute (Suc n) e_ok st = Some s_ok \<and>
           content_body (renderNotes e_fail routeData st) =
             ''<p>Error loading: '' @ template (contentPath routeData) @ ''</p>'' \<and>
           content_body s_fail =
             ''<p>Error loading: '' @ template (contentPath routeData) @ ''</p>'' \<and>
           content_body s_ok = text \<and>
           s_fail = s_ok\<lparr>content_body := content_body s_fail\<rparr> \<and>
           tree_links s_fail = tree_links (updateActiveNav (getCurrentRoute st) st) \<and>
           breadcrumb_html s_fail =
             concat (map crumb_html (breadcrumb (getCurrentRoute st) routeData)) \<and>
           document_title s_fail = title routeData @ '' - Doc.''"
proof -
  from assms(3) obtain error where failed: "try_fetch e_fail routeData = Inl error"
    by (auto simp add: try_fetch_def)
  from assms(4) have loaded: "try_fetch e_ok routeData = Inr text"
    by (simp add: try_fetch_def)
  let ?c = "getCurrentRoute st"
  let ?st1 = "updateTopNav (Some Notes) (applyLayout (Some Notes) st)"
  let ?finish = "\<lambda>s. (updateBreadcrumb ?c routeData (updateActiveNav ?c s))
                       \<lparr>document_title := title routeData @ '' - Doc.''\<rparr>"
  let ?s_fail = "?finish (renderNotes e_fail routeData ?st1)"
  let ?s_ok = "?finish (renderNotes e_ok routeData ?st1)"
  have run_fail: "handleRoute (Suc n) e_fail st = Some ?s_fail"
    by (rule handleRoute_found[OF assms(1,2)])
  have run_ok: "handleRoute (Suc n) e_ok st = Some ?s_ok"
    by (rule handleRoute_found[OF assms(1,2)])
  have loader: "content_body (renderNotes e_fail routeData st) =
      ''<p>Error loading: '' @ template (contentPath routeData) @ ''</p>''"
    by (simp add: renderNotes_failure[OF failed] load_error_markup_def)
  have body_fail: "content_body ?s_fail =
      ''<p>Error loading: '' @ template (contentPath routeData) @ ''</p>''"
    by (simp add: renderNotes_failure[OF failed] load_error_markup_def
        updateBreadcrumb_def updateActiveNav_def Let_def)
  have body_ok: "content_body ?s_ok = text"
    by (simp add: renderNotes_success[OF loaded] updateBreadcrumb_def updateActiveNav_def Let_def)
  have same: "?s_fail = ?s_ok\<lparr>content_body := content_body ?s_fail\<rparr>"
    by (simp add: renderNotes_failure[OF failed] renderNotes_success[OF loaded]
        updateBreadcrumb_def updateActiveNav_def Let_def)
  have tree: "tree_links ?s_fail = tree_links (updateActiveNav ?c st)"
    by (simp add: renderNotes_failure[OF failed] updateBreadcrumb_def updateActiveNav_def
        Let_def updateTopNav_def applyLayout_def showSidebar_def)
  have crumbs: "breadcrumb_html ?s_fail = concat (map crumb_html (breadcrumb ?c routeData))"
    by (simp add: updateBreadcrumb_def)
  have doc: "document_title ?s_fail = title routeData @ '' - Doc.''"
    by simp
  from run_fail run_ok loader body_fail body_ok same tree crumbs doc show ?thesis
    by blast
qed

theorem fetch_failure_recovered_witness:
  "\<exists>s. handleRoute 1 offline (boot nature ''/notes/nature/trees'') = Some s \<and>
       content_body s = ''<p>Error loading: /nature/trees.html</p>'' \<and>
       document_title s = ''Trees - Doc.''"
proof -
  let ?st = "boot nature ''/notes/nature/trees''"
  have cur: "getCurrentRoute ?st = ''/notes/nature/trees''"
    by (simp add: getCurrentRoute_def boot_nature_tables)
  have named: "resolveNamedRoute (getCurrentRoute ?st) = Some Notes"
    by (simp add: cur resolveNamedRoute_def startsWith_def)
  have entry: "map_of (routes ?st) (getCurrentRoute ?st) = Some trees_entry"
    by (simp add: cur boot_nature_tables)
  have down: "fetch offline (content_url trees_entry) = FetchRejected \<or>
      (\<exists>t. fetch offline (content_url trees_entry) = FetchResponse False t)"
    by (simp add: offline_def)
  have up: "fetch online (content_url trees_entry) =
      FetchResponse True (''<p>content of '' @ content_url trees_entry @ ''</p>'')"
    by (simp add: online_def)
  from fetch_failure_recovered [OF named entry down up, of 0]
  show ?thesis
    by (auto simp add: trees_entry_def template_def)
qed

section \<open>Section root\<close>

lemma first_flat_entry:
  assumes "routes st = []" and "flatRoutes st = []"
    and "flatRoutes (buildRoutes root parent st) = firstRoute # others"
  shows "\<exists>rd. map_of (routes (buildRoutes root parent st)) (route firstRoute) = Some rd \<and>
           ((\<forall>g \<in> set others. route g \<noteq> route firstRoute) \<longrightarrow>
              title rd = flat_title firstRoute \<and> rtype rd = flat_type firstRoute \<and>
              contentPath rd = flat_contentPath firstRoute)"
proof -
  let ?flat = "\<lambda>e. \<lparr>route = fst e, flat_title = title (snd e), flat_type = rtype (snd e),
               flat_contentPath = contentPath (snd e)\<rparr>"
  let ?es = "entries root parent"
  have tab: "map_of (routes (buildRoutes root parent st)) = map_of (rev ?es)"
    by (simp add: buildRoutes_eq(1) map_of_set_all assms(1))
  have "map ?flat ?es = firstRoute # others"
    using assms(2,3) by (simp add: buildRoutes_eq(1) entries_flat(1))
  then obtain e1 es' where es: "?es = e1 # es'" and f1: "?flat e1 = firstRoute"
    and fs: "map ?flat es' = others"
    by (cases ?es) auto
  from f1 have k: "route firstRoute = fst e1" by auto
  have "fst e1 \<in> fst ` set (rev ?es)" by (simp add: es)
  then have "map_of (rev ?es) (fst e1) \<noteq> None" by (rule map_of_key)
  then obtain rd where rd: "map_of (rev ?es) (fst e1) = Some rd" by blast
  have uniq: "title rd = flat_title firstRoute \<and> rtype rd = flat_type firstRoute \<and>
      contentPath rd = flat_contentPath firstRoute"
    if u: "\<forall>g \<in> set others. route g \<noteq> route firstRoute"
  proof -
    have "fst e1 \<notin> fst ` set es'"
    proof
      assume "fst e1 \<in> fst ` set es'"
      then obtain x where x: "x \<in> set es'" and fx: "fst x = fst e1" by auto
      from x fs have "?flat x \<in> set others" by auto
      with u have "route (?flat x) \<noteq> route firstRoute" by blast
      with fx k show False by simp
    qed
    then have "map_of (rev es') (fst e1) = None"
      by (simp add: map_of_eq_None_iff)
    then have "map_of (rev ?es) (fst e1) = Some (snd e1)"
      by (simp add: es map_add_def)
    with rd have "rd = snd e1" by simp
    with f1 show ?thesis by auto
  qed
  from rd uniq tab k show ?thesis by auto
qed

text \<open>
  Claim C1, as the code has it. Build the tables from a manifest on a new router, with
  the page at the bare section root \<^verbatim>\<open>/notes\<close>, the table without an entry for it and
  the flat list not empty. Let the first flat route's path resolve to the notes route
  (it begins with \<^verbatim>\<open>/notes/\<close> or \<^verbatim>\<open>/notes?\<close>, as it does when the first content path
  begins with a slash), and let the browser report that path unchanged after the
  history write. Then two passes suffice: the history grows by exactly one replace, to
  the first flat route's path, which is then the current path; and the Route rendered
  (title, content fetched, content region) is the entry the table holds under that
  path. That entry has the first flat entry's title, type and content path when no
  later node normalizes to the same path. Nothing is stated here for a first path that
  the browser reads back changed.
\<close>

theorem section_root_redirect:
  assumes "routes st0 = []" and "flatRoutes st0 = []"
    and "getCurrentRoute st0 = ''/notes''"
    and "flatRoutes (buildRoutes root [] st0) = firstRoute # others"
    and "map_of (routes (buildRoutes root [] st0)) ''/notes'' = None"
    and "resolveNamedRoute (route firstRoute) = Some Notes"
    and "url_pathname e (route firstRoute) = route firstRoute"
  shows "\<exists>st' rd.
           handleRoute (Suc (Suc n)) e (buildRoutes root [] st0) = Some st' \<and>
           history st' = history st0 @ [ReplaceState (route firstRoute)] \<and>
           pathname st' = route firstRoute \<and>
           map_of (routes (buildRoutes root [] st0)) (route firstRoute) = Some rd \<and>
           document_title st' = title rd @ '' - Doc.'' \<and>
           fetched st' = fetched st0 @ [content_url rd] \<and>
           content_body st' =
             (case try_fetch e rd of Inr text \<Rightarrow> text | Inl error \<Rightarrow> load_error_markup rd) \<and>
           ((\<forall>g \<in> set others. route g \<noteq> route firstRoute) \<longrightarrow>
              title rd = flat_title firstRoute \<and> rtype rd = flat_type firstRoute \<and>
              contentPath rd = flat_contentPath firstRoute)"
proof -
  let ?st = "buildRoutes root [] st0"
  let ?st1 = "updateTopNav (Some Notes) (applyLayout (Some Notes) ?st)"
  let ?st2 = "write_history e (route firstRoute) True ?st1"
  from first_flat_entry[OF assms(1,2,4)] obtain rd where
    rd: "map_of (routes ?st) (route firstRoute) = Some rd" and
    uniq: "(\<forall>g \<in> set others. route g \<noteq> route firstRoute) \<longrightarrow>
              title rd = flat_title firstRoute \<and> rtype rd = flat_type firstRoute \<and>
              contentPath rd = flat_contentPath firstRoute"
    by blast
  have cur: "getCurrentRoute ?st = ''/notes''"
    using assms(3) by (simp add: buildRoutes_eq(1) getCurrentRoute_def split: if_splits)
  have hist: "history ?st = history st0" and fet: "fetched ?st = fetched st0"
    by (simp_all add: buildRoutes_eq(1))
  have first: "handleRoute (Suc (Suc n)) e ?st = handleRoute (Suc n) e ?st2"
    by (simp add: handleRoute_first[OF cur assms(5,4)] del: handleRoute.simps)
  have nonempty: "route firstRoute \<noteq> []"
    using assms(6) by (auto simp add: resolveNamedRoute_def startsWith_def)
  have cur2: "getCurrentRoute ?st2 = route firstRoute"
    by (rule getCurrentRoute_write_history[OF assms(7) nonempty])
  have a: "resolveNamedRoute (getCurrentRoute ?st2) = Some Notes"
    using assms(6) cur2 by simp
  have b: "map_of (routes ?st2) (getCurrentRoute ?st2) = Some rd"
    using rd cur2 by simp
  have h2: "history ?st2 = history st0 @ [ReplaceState (route firstRoute)]"
    by (simp add: write_history_def updateTopNav_def applyLayout_def hist)
  have p2: "pathname ?st2 = route firstRoute"
    by (simp add: write_history_def assms(7))
  have f2: "fetched ?st2 = fetched st0"
    by (simp add: write_history_def updateTopNav_def applyLayout_def fet)
  from handleRoute_rendered[OF a b, of n e] first h2 p2 f2 rd uniq
  show ?thesis by (auto simp del: handleRoute.simps)
qed

theorem section_root_redirect_witness:
  "\<exists>st'. handleRoute (Suc (Suc 0)) online (buildRoutes nature [] (page ''/notes'')) = Some st' \<and>
         history st' = [ReplaceState ''/notes/nature''] \<and>
         pathname st' = ''/notes/nature'' \<and>
         document_title st' = ''Nature - Doc.'' \<and>
         fetched st' = [''/content-store/nature/README.html'']"
proof -
  let ?first = "\<lparr>route = ''/notes/nature'', flat_title = ''Nature'', flat_type = ''directory'',
         flat_contentPath = JString ''/nature/README.html''\<rparr>"
  let ?others = "[\<lparr>route = ''/notes/nature/trees'', flat_title = ''Trees'', flat_type = ''file'',
         flat_contentPath = JString ''/nature/trees.html''\<rparr>]"
  have a: "routes (page ''/notes'') = []" and b: "flatRoutes (page ''/notes'') = []"
    by (simp_all add: page_tables)
  have c: "getCurrentRoute (page ''/notes'') = ''/notes''"
    by (simp add: getCurrentRoute_def page_tables)
  have d: "flatRoutes (buildRoutes nature [] (page ''/notes'')) = ?first # ?others"
    by (simp add: built_nature)
  have e: "map_of (routes (buildRoutes nature [] (page ''/notes''))) ''/notes'' = None"
    by (simp add: built_nature)
  have f: "resolveNamedRoute (route ?first) = Some Notes"
    by (simp add: resolveNamedRoute_def startsWith_def)
  have g: "url_pathname online (route ?first) = route ?first"
    by (simp add: online_def path_component_def)
  from section_root_redirect [OF a b c d e f g, of 0]
  show ?thesis
    by (auto simp add: built_nature page_tables content_url_def template_def
        simp del: handleRoute.simps)
qed

text \<open>
  Claim C1 as stated fails in two ways. Where two nodes share a path (\<^verbatim>\<open>/a.html\<close> and
  \<^verbatim>\<open>/a/README.html\<close> both normalize to \<^verbatim>\<open>/a\<close>) the redirect goes to the first flat
  route's path but the Route rendered is the one built last for it: title \<^verbatim>\<open>A2\<close>,
  content \<^verbatim>\<open>/a/README.html\<close>, not the first flat entry's. Where the first content path
  has no leading slash (\<^verbatim>\<open>foo.html\<close>) the redirect goes to \<^verbatim>\<open>/notesfoo\<close>, which is no
  path of the section, and the NotFound page is rendered with nothing fetched.
\<close>

theorem section_root_redirect_not_first:
  "map (\<lambda>f. (route f, flat_title f, flat_contentPath f)) (flatRoutes (boot twins ''/notes'')) =
     [(''/notes/a'', ''A'', JString ''/a.html''), (''/notes/a'', ''A2'', JString ''/a/README.html'')] \<and>
   map_of (routes (boot twins ''/notes'')) ''/notes'' = None \<and>
   map_option document_title (handleRoute (Suc (Suc 0)) online (boot twins ''/notes'')) =
     Some ''A2 - Doc.'' \<and>
   map_option fetched (handleRoute (Suc (Suc 0)) online (boot twins ''/notes'')) =
     Some [''/content-store/a/README.html''] \<and>
   map route (flatRoutes (boot slashless ''/notes'')) = [''/notesfoo''] \<and>
   map_of (routes (boot slashless ''/notes'')) ''/notes'' = None \<and>
   map_option content_body (handleRoute (Suc (Suc 0)) online (boot slashless ''/notes'')) =
     Some not_found_markup \<and>
   map_option fetched (handleRoute (Suc (Suc 0)) online (boot slashless ''/notes'')) = Some []"
proof -
  let ?tw = "boot twins ''/notes''"
  let ?a2 = "\<lparr>title = ''A2'', rtype = ''directory'', contentPath = JString ''/a/README.html'',
          parentPath = [], namedRoute = ''notes''\<rparr>"
  let ?tw2 = "write_history online ''/notes/a'' True
                (updateTopNav (Some Notes) (applyLayout (Some Notes) ?tw))"
  have tw_flat: "flatRoutes ?tw =
       \<lparr>route = ''/notes/a'', flat_title = ''A'', flat_type = ''file'',
         flat_contentPath = JString ''/a.html''\<rparr> #
       [\<lparr>route = ''/notes/a'', flat_title = ''A2'', flat_type = ''directory'',
         flat_contentPath = JString ''/a/README.html''\<rparr>]"
    by (simp add: boot_tables built_twins)
  have tw_routes: "routes ?tw = [(''/notes/a'', ?a2)]"
    by (simp add: boot_tables built_twins)
  have tw_cur: "getCurrentRoute ?tw = ''/notes''" by (simp add: boot_current)
  have tw_none: "map_of (routes ?tw) ''/notes'' = None" by (simp add: tw_routes)
  have tw_first: "handleRoute (Suc (Suc 0)) online ?tw = handleRoute (Suc 0) online ?tw2"
    by (simp add: handleRoute_first[OF tw_cur tw_none tw_flat] del: handleRoute.simps)
  have tw_cur2: "getCurrentRoute ?tw2 = ''/notes/a''"
    by (rule getCurrentRoute_write_history) (simp_all add: online_def path_component_def)
  have tw_named: "resolveNamedRoute (getCurrentRoute ?tw2) = Some Notes"
    by (simp add: tw_cur2 resolveNamedRoute_def startsWith_def)
  have tw_entry: "map_of (routes ?tw2) (getCurrentRoute ?tw2) = Some ?a2"
    by (simp add: tw_cur2 tw_routes)
  from handleRoute_rendered[OF tw_named tw_entry, of 0 online] obtain st' where
    "handleRoute (Suc 0) online ?tw2 = Some st'" and
    "document_title st' = title ?a2 @ '' - Doc.''" and
    "fetched st' = fetched ?tw2 @ [content_url ?a2]"
    by blast
  then have tw_title: "map_option document_title (handleRoute (Suc (Suc 0)) online ?tw) =
      Some ''A2 - Doc.''"
    and tw_fetched: "map_option fetched (handleRoute (Suc (Suc 0)) online ?tw) =
      Some [''/content-store/a/README.html'']"
    by (simp_all add: tw_first boot_tables content_url_def template_def del: handleRoute.simps)
  let ?sl = "boot slashless ''/notes''"
  let ?sl2 = "write_history online ''/notesfoo'' True
                (updateTopNav (Some Notes) (applyLayout (Some Notes) ?sl))"
  have sl_flat: "flatRoutes ?sl =
       \<lparr>route = ''/notesfoo'', flat_title = ''T'', flat_type = ''file'',
         flat_contentPath = JString ''foo.html''\<rparr> # []"
    by (simp add: boot_tables built_slashless)
  have sl_none: "map_of (routes ?sl) ''/notes'' = None"
    by (simp add: boot_tables built_slashless)
  have sl_cur: "getCurrentRoute ?sl = ''/notes''" by (simp add: boot_current)
  have sl_first: "handleRoute (Suc (Suc 0)) online ?sl = handleRoute (Suc 0) online ?sl2"
    by (simp add: handleRoute_first[OF sl_cur sl_none sl_flat] del: handleRoute.simps)
  have sl_cur2: "getCurrentRoute ?sl2 = ''/notesfoo''"
    by (rule getCurrentRoute_write_history) (simp_all add: online_def path_component_def)
  have sl_unnamed: "resolveNamedRoute (getCurrentRoute ?sl2) = None"
    by (simp add: sl_cur2 resolveNamedRoute_def startsWith_def)
  have sl_second: "handleRoute (Suc 0) online ?sl2 =
      Some (show404 (updateTopNav None (applyLayout None ?sl2)))"
    by (rule handleRoute_unresolved[OF sl_unnamed])
  have sl_body: "map_option content_body (handleRoute (Suc (Suc 0)) online ?sl) =
      Some not_found_markup"
    and sl_fetched: "map_option fetched (handleRoute (Suc (Suc 0)) online ?sl) = Some []"
    unfolding sl_first sl_second
    by (simp_all add: show404_def updateTopNav_def applyLayout_def write_history_def boot_tables)
  from tw_flat tw_none tw_title tw_fetched sl_flat sl_none sl_body sl_fetched
  show ?thesis by simp
qed

text \<open>
  Claim C7, as the code has it. On the bare section root, with an empty flat list and a
  table that holds no key without a flat entry (the tables \<^const>\<open>buildRoutes\<close> leaves are so,
  and then the table is empty too), the pass skips the redirect, finds no entry and no
  fallback match, and ends on the NotFound page: one pass, no history write, no fetch,
  document title untouched, content region and breadcrumb set to the 404 markup.
\<close>

theorem section_root_empty:
  assumes "getCurrentRoute st = ''/notes''"
    and "flatRoutes st = []"
    and "fst ` set (routes st) \<subseteq> route ` set (flatRoutes st)"
  shows "\<exists>st'. handleRoute (Suc n) e st = Some st' \<and>
               history st' = history st \<and> pathname st' = pathname st \<and>
               fetched st' = fetched st \<and> document_title st' = document_title st \<and>
               content_body st' = not_found_markup \<and>
               breadcrumb_html st' = not_found_breadcrumb"
proof -
  from assms(2,3) have empty: "routes st = []" by simp
  have named: "resolveNamedRoute (getCurrentRoute st) = Some Notes"
    by (simp add: assms(1) resolveNamedRoute_def)
  have none: "map_of (routes st) (getCurrentRoute st) = None"
    by (simp add: empty)
  have "handleRoute (Suc n) e st = Some (show404 (updateTopNav (Some Notes) (applyLayout (Some Notes) st)))"
    using empty by (simp add: handleRoute_fallback[OF named none] assms(2) del: handleRoute.simps)
  then show ?thesis
    by (simp add: show404_def updateTopNav_def applyLayout_def del: handleRoute.simps)
qed

theorem section_root_empty_witness:
  "\<exists>st'. handleRoute (Suc 0) offline (page ''/notes'') = Some st' \<and>
         history st' = [] \<and> fetched st' = [] \<and>
         content_body st' = not_found_markup \<and> breadcrumb_html st' = not_found_breadcrumb"
proof -
  have a: "getCurrentRoute (page ''/notes'') = ''/notes''"
    by (simp add: getCurrentRoute_def page_tables)
  have b: "flatRoutes (page ''/notes'') = []" by (simp add: page_tables)
  have c: "fst ` set (routes (page ''/notes'')) \<subseteq> route ` set (flatRoutes (page ''/notes''))"
    by (simp add: page_tables)
  from section_root_empty [OF a b c, of 0 offline] show ?thesis
    by (auto simp add: page_tables simp del: handleRoute.simps)
qed

text \<open>
  Claim C7 as stated fails: the state is not left as it was. On a fresh page at
  \<^verbatim>\<open>/notes\<close> with empty tables the pass writes the 404 page into the content region and
  \<^verbatim>\<open>Home / 404\<close> into the breadcrumb.
\<close>

theorem section_root_empty_renders_404:
  "map_option content_body (handleRoute (Suc 0) offline (page ''/notes'')) = Some not_found_markup \<and>
   not_found_markup \<noteq> content_body (page ''/notes'') \<and>
   map_option breadcrumb_html (handleRoute (Suc 0) offline (page ''/notes'')) =
     Some not_found_breadcrumb \<and>
   not_found_breadcrumb \<noteq> breadcrumb_html (page ''/notes'')"
proof -
  have named: "resolveNamedRoute (getCurrentRoute (page ''/notes'')) = Some Notes"
    by (simp add: getCurrentRoute_def page_tables resolveNamedRoute_def)
  have none: "map_of (routes (page ''/notes'')) (getCurrentRoute (page ''/notes'')) = None"
    by (simp add: page_tables)
  have empty: "getCurrentRoute (page ''/notes'') \<noteq> ''/notes'' \<or> flatRoutes (page ''/notes'') = []"
    by (simp add: page_tables)
  show ?thesis
    by (simp add: handleRoute_fallback[OF named none empty] page_tables show404_def
        not_found_markup_def not_found_breadcrumb_def del: handleRoute.simps)
qed

section \<open>Fallback Matcher\<close>

lemma findMatchingRoute_key:
  "findMatchingRoute current rs = Some r \<Longrightarrow> r \<in> fst ` set rs"
  by (induction current rs rule: findMatchingRoute.induct) (auto split: if_splits)

lemma findMatchingRoute_matches:
  "findMatchingRoute current rs = Some r \<Longrightarrow> startsWith r current \<or> startsWith current r"
  by (induction current rs rule: findMatchingRoute.induct) (auto split: if_splits)

lemma faq_loop:
  assumes "routes st = routes (boot faq p)"
    and "getCurrentRoute st = ''/notes/faq/why''"
  shows "handleRoute n online st = None"
  using assms
proof (induction n arbitrary: st)
  case 0
  show ?case by simp
next
  case (Suc n)
  let ?st1 = "updateTopNav (Some Notes) (applyLayout (Some Notes) st)"
  let ?st2 = "write_history online ''/notes/faq/why?'' True ?st1"
  have named: "resolveNamedRoute (getCurrentRoute st) = Some Notes"
    by (simp add: Suc.prems(2) resolveNamedRoute_def startsWith_def)
  have none: "map_of (routes st) (getCurrentRoute st) = None"
    by (simp add: Suc.prems built_faq)
  have other: "getCurrentRoute st \<noteq> ''/notes'' \<or> flatRoutes st = []"
    by (simp add: Suc.prems(2))
  have found: "findMatchingRoute (getCurrentRoute st) (routes st) = Some ''/notes/faq/why?''"
    by (simp add: Suc.prems built_faq startsWith_def)
  have step: "handleRoute (Suc n) online st = handleRoute n online ?st2"
    by (simp add: handleRoute_fallback[OF named none other] found del: handleRoute.simps)
  have "routes ?st2 = routes (boot faq p)"
    by (simp add: Suc.prems(1))
  moreover have "getCurrentRoute ?st2 = ''/notes/faq/why''"
    by (simp add: getCurrentRoute_def write_history_def online_def path_component_def)
  ultimately have "handleRoute n online ?st2 = None" by (rule Suc.IH)
  with step show ?case by simp
qed

text \<open>
  The fallback redirect where the browser reports the key as it was written.
  \<^const>\<open>findMatchingRoute\<close> returns nothing or a key of the table it scans, for every path
  and every table. Take a pass that reaches the fallback matcher (a path under the
  section with no entry of its own, and not the bare section root with a first flat
  route to go to) and let the matcher return a key. If the key is the empty string the
  code's truthiness test sends the pass to NotFound without a redirect. Otherwise the
  pass writes one history replace to the key, and, the browser reporting the key itself
  as the new path, the next pass finds the key in the table and ends without a further
  redirect: two passes suffice, the history has grown by that one replace, and where the
  key lies under the section its Route is the one rendered.
\<close>

theorem fallback_redirect_once:
  assumes "resolveNamedRoute (getCurrentRoute st) = Some Notes"
    and "map_of (routes st) (getCurrentRoute st) = None"
    and "getCurrentRoute st \<noteq> ''/notes'' \<or> flatRoutes st = []"
    and "findMatchingRoute (getCurrentRoute st) (routes st) = Some matchedRoute"
    and "matchedRoute \<noteq> [] \<longrightarrow> url_pathname e matchedRoute = matchedRoute"
  shows "(\<forall>current rs r. findMatchingRoute current rs = Some r \<longrightarrow> r \<in> fst ` set rs) \<and>
         map_of (routes st) matchedRoute \<noteq> None \<and>
         (\<exists>st'. handleRoute (Suc (Suc n)) e st = Some st' \<and>
                history st' =
                  history st @ (if matchedRoute = [] then [] else [ReplaceState matchedRoute]) \<and>
                routes st' = routes st \<and>
                (matchedRoute \<noteq> [] \<longrightarrow> pathname st' = matchedRoute) \<and>
                (matchedRoute \<noteq> [] \<longrightarrow> resolveNamedRoute matchedRoute = Some Notes \<longrightarrow>
                   (\<exists>rd. map_of (routes st) matchedRoute = Some rd \<and>
                         document_title st' = title rd @ '' - Doc.'' \<and>
                         fetched st' = fetched st @ [content_url rd])))"
proof -
  let ?st1 = "updateTopNav (Some Notes) (applyLayout (Some Notes) st)"
  let ?st2 = "write_history e matchedRoute True ?st1"
  have key: "map_of (routes st) matchedRoute \<noteq> None"
    by (rule map_of_key[OF findMatchingRoute_key[OF assms(4)]])
  have run: "\<exists>st'. handleRoute (Suc (Suc n)) e st = Some st' \<and>
                history st' =
                  history st @ (if matchedRoute = [] then [] else [ReplaceState matchedRoute]) \<and>
                routes st' = routes st \<and>
                (matchedRoute \<noteq> [] \<longrightarrow> pathname st' = matchedRoute) \<and>
                (matchedRoute \<noteq> [] \<longrightarrow> resolveNamedRoute matchedRoute = Some Notes \<longrightarrow>
                   (\<exists>rd. map_of (routes st) matchedRoute = Some rd \<and>
                         document_title st' = title rd @ '' - Doc.'' \<and>
                         fetched st' = fetched st @ [content_url rd]))"
  proof (cases "matchedRoute = []")
    case True
    have "handleRoute (Suc (Suc n)) e st = Some (show404 ?st1)"
      using assms(4) True by (simp add: handleRoute_fallback[OF assms(1,2,3)] del: handleRoute.simps)
    then show ?thesis using True
      by (simp add: show404_def updateTopNav_def applyLayout_def del: handleRoute.simps)
  next
    case False
    with assms(5) have same_path: "url_pathname e matchedRoute = matchedRoute" by simp
    have first: "handleRoute (Suc (Suc n)) e st = handleRoute (Suc n) e ?st2"
      using assms(4) False by (simp add: handleRoute_fallback[OF assms(1,2,3)] del: handleRoute.simps)
    have cur: "getCurrentRoute ?st2 = matchedRoute"
      by (rule getCurrentRoute_write_history[OF same_path False])
    have h2: "history ?st2 = history st @ [ReplaceState matchedRoute]"
      by (simp add: write_history_def updateTopNav_def applyLayout_def)
    have p2: "pathname ?st2 = matchedRoute"
      by (simp add: write_history_def same_path)
    have f2: "fetched ?st2 = fetched st"
      by (simp add: write_history_def updateTopNav_def applyLayout_def)
    have "map_of (routes ?st2) (getCurrentRoute ?st2) \<noteq> None"
      using key cur by simp
    from handleRoute_static[OF this, of n e] obtain st' where
      second: "handleRoute (Suc n) e ?st2 = Some st'" and
      h: "history st' = history ?st2" and p: "pathname st' = pathname ?st2" and
      r: "routes st' = routes ?st2"
      by blast
    have shown: "\<exists>rd. map_of (routes st) matchedRoute = Some rd \<and>
                  document_title st' = title rd @ '' - Doc.'' \<and>
                  fetched st' = fetched st @ [content_url rd]"
      if named: "resolveNamedRoute matchedRoute = Some Notes"
    proof -
      from key obtain rd where rd: "map_of (routes st) matchedRoute = Some rd" by auto
      have a: "resolveNamedRoute (getCurrentRoute ?st2) = Some Notes" using named cur by simp
      have b: "map_of (routes ?st2) (getCurrentRoute ?st2) = Some rd" using rd cur by simp
      from handleRoute_rendered[OF a b, of n e] second f2 rd show ?thesis by auto
    qed
    from first second h p r h2 p2 False shown show ?thesis by auto
  qed
  from key run findMatchingRoute_key show ?thesis by blast
qed

theorem fallback_redirect_once_witness:
  "\<exists>st'. handleRoute (Suc (Suc 0)) online (boot nature ''/notes/nature/unknown'') = Some st' \<and>
         history st' = [ReplaceState ''/notes/nature''] \<and>
         pathname st' = ''/notes/nature'' \<and>
         document_title st' = ''Nature - Doc.'' \<and>
         fetched st' = [''/content-store/nature/README.html'']"
proof -
  let ?st = "boot nature ''/notes/nature/unknown''"
  have cur: "getCurrentRoute ?st = ''/notes/nature/unknown''"
    by (simp add: getCurrentRoute_def boot_nature_tables)
  have a: "resolveNamedRoute (getCurrentRoute ?st) = Some Notes"
    by (simp add: cur resolveNamedRoute_def startsWith_def)
  have b: "map_of (routes ?st) (getCurrentRoute ?st) = None"
    by (simp add: cur boot_nature_tables)
  have c: "getCurrentRoute ?st \<noteq> ''/notes'' \<or> flatRoutes ?st = []"
    by (simp add: cur)
  have d: "findMatchingRoute (getCurrentRoute ?st) (routes ?st) = Some ''/notes/nature''"
    by (simp add: cur boot_nature_tables startsWith_def)
  have e: "''/notes/nature'' \<noteq> [] \<longrightarrow> url_pathname online ''/notes/nature'' = ''/notes/nature''"
    by (simp add: online_def path_component_def)
  have f: "resolveNamedRoute ''/notes/nature'' = Some Notes"
    by (simp add: resolveNamedRoute_def startsWith_def)
  have g: "fetched ?st = []"
    by (simp add: boot_def nature_def page_def Let_def)
  from fallback_redirect_once [OF a b c d e, of 0] f g show ?thesis
    by (auto simp add: boot_nature_tables content_url_def template_def simp del: handleRoute.simps)
qed

text \<open>
  Claim C10, against the code. The claim is what the fallback redirect is written to
  do: land on the matched key and render it. The code misses it for a key that the
  browser does not report as it was written. The content path \<^verbatim>\<open>/faq/why?.html\<close> gives
  the key \<^verbatim>\<open>/notes/faq/why?\<close>, which \<^verbatim>\<open>buildFileTree\<close> also puts into the sidebar link;
  after a history write with it \<^verbatim>\<open>location.pathname\<close> is \<^verbatim>\<open>/notes/faq/why\<close>, whose exact
  lookup fails and whose fallback match is the same key again. So every pass ends in
  another redirect, and no amount of fuel brings the navigation to an end: from the
  page at \<^verbatim>\<open>/notes/faq/why\<close>, from a click on the sidebar link (\<^verbatim>\<open>navigate\<close> with a push),
  and from the section root \<^verbatim>\<open>/notes\<close>.
\<close>

theorem fallback_redirect_loops:
  "routes (boot faq ''/notes/faq/why'') =
     [(''/notes/faq/why?'',
       \<lparr>title = ''Why?'', rtype = ''file'', contentPath = JString ''/faq/why?.html'',
        parentPath = [], namedRoute = ''notes''\<rparr>)] \<and>
   tree_links (boot faq ''/'') = [TreeItem ''/notes/faq/why?'' False False False []] \<and>
   findMatchingRoute ''/notes/faq/why'' (routes (boot faq ''/notes/faq/why'')) =
     Some ''/notes/faq/why?'' \<and>
   url_pathname online ''/notes/faq/why?'' = ''/notes/faq/why'' \<and>
   (\<forall>n. handleRoute n online (boot faq ''/notes/faq/why'') = None) \<and>
   (\<forall>n. navigate n online ''/notes/faq/why?'' False (boot faq ''/'') = None) \<and>
   (\<forall>n. handleRoute n online (boot faq ''/notes'') = None)"
proof -
  have t: "routes (boot faq ''/notes/faq/why'') =
     [(''/notes/faq/why?'',
       \<lparr>title = ''Why?'', rtype = ''file'', contentPath = JString ''/faq/why?.html'',
        parentPath = [], namedRoute = ''notes''\<rparr>)]"
    by (rule built_faq)
  have l: "tree_links (boot faq ''/'') = [TreeItem ''/notes/faq/why?'' False False False []]"
    by (simp add: boot_def faq_def pathToRoute_def normalizer_eval)
  have a: "findMatchingRoute ''/notes/faq/why'' (routes (boot faq ''/notes/faq/why'')) =
     Some ''/notes/faq/why?''"
    by (simp add: built_faq startsWith_def)
  have b: "url_pathname online ''/notes/faq/why?'' = ''/notes/faq/why''"
    by (simp add: online_def path_component_def)
  have c: "handleRoute n online (boot faq ''/notes/faq/why'') = None" for n
    by (rule faq_loop) (simp_all add: boot_current)
  have written: "handleRoute n online (write_history online ''/notes/faq/why?'' r st) = None"
    if "routes st = routes (boot faq p)" for n r st p
  proof (rule faq_loop)
    show "routes (write_history online ''/notes/faq/why?'' r st) = routes (boot faq p)"
      using that by simp
    show "getCurrentRoute (write_history online ''/notes/faq/why?'' r st) = ''/notes/faq/why''"
      by (simp add: getCurrentRoute_def write_history_def online_def path_component_def)
  qed
  have d: "navigate n online ''/notes/faq/why?'' False (boot faq ''/'') = None" for n
    using written[of "boot faq ''/''" "''/''" n False] by (simp add: built_faq del: handleRoute.simps)
  have e: "handleRoute n online (boot faq ''/notes'') = None" for n
  proof (cases n)
    case 0
    then show ?thesis by simp
  next
    case (Suc m)
    let ?st = "boot faq ''/notes''"
    have cur: "getCurrentRoute ?st = ''/notes''" by (simp add: boot_current)
    have none: "map_of (routes ?st) ''/notes'' = None" by (simp add: built_faq)
    have flat: "flatRoutes ?st =
        \<lparr>route = ''/notes/faq/why?'', flat_title = ''Why?'', flat_type = ''file'',
          flat_contentPath = JString ''/faq/why?.html''\<rparr> # []"
      by (simp add: boot_tables faq_def page_def Let_def normalizer_eval)
    have "handleRoute (Suc m) online ?st =
        handleRoute m online (write_history online ''/notes/faq/why?'' True
          (updateTopNav (Some Notes) (applyLayout (Some Notes) ?st)))"
      by (simp add: handleRoute_first[OF cur none flat] del: handleRoute.simps)
    also have "\<dots> = None"
      by (rule written[of _ "''/notes''"]) simp
    finally show ?thesis using Suc by simp
  qed
  from t l a b c d e show ?thesis by simp
qed

end
